theory Spec2Isabelle
  imports Complex_Main
begin

section \<open>JavaScript values and the built-ins the pricing code calls\<close>

text \<open>
  The storefront is JavaScript, whose numbers are IEEE 754 doubles. A finite number is
  modelled by the \<^typ>\<open>real\<close> it denotes, and every \<open>+\<close>, \<open>-\<close>, \<open>*\<close> and \<open>/\<close> of the
  pricing code rounds its exact result to the nearest double, ties to the even
  significand, as IEEE 754 prescribes. In the pricing arithmetic the exponent range is
  taken unbounded: overflow to \<open>Infinity\<close> (beyond \<open>2^1024\<close>) and subnormal results
  (below \<open>2^-1022\<close>) are not modelled there; no sum or product of prices comes near
  either. Where a number is read from text, and in the distance computation, the whole
  format is modelled (\<open>Number_value\<close> below).
\<close>

definition round_ties_even :: "real \<Rightarrow> int" where
  "round_ties_even r =
     (let f = \<lfloor>r\<rfloor> in
      if r - of_int f < 1 / 2 then f
      else if 1 / 2 < r - of_int f then f + 1
      else if even f then f else f + 1)"

text \<open>
  The double nearest to \<open>x\<close>: with \<open>2^e \<le> |x| < 2^(e+1)\<close>, the multiple of \<open>2^(e-52)\<close>
  nearest to \<open>x\<close> (53 significant bits).
\<close>

definition to_double :: "real \<Rightarrow> real" where
  "to_double x =
     (if x = 0 then 0
      else let u = 2 powr (of_int \<lfloor>log 2 \<bar>x\<bar>\<rfloor> - 52)
           in of_int (round_ties_even (x / u)) * u)"

definition js_add :: "real \<Rightarrow> real \<Rightarrow> real" where
  "js_add a b = to_double (a + b)"

definition js_sub :: "real \<Rightarrow> real \<Rightarrow> real" where
  "js_sub a b = to_double (a - b)"

definition js_mul :: "real \<Rightarrow> real \<Rightarrow> real" where
  "js_mul a b = to_double (a * b)"

text \<open>Division; the pricing code divides by the constant 100 only.\<close>

definition js_div :: "real \<Rightarrow> real \<Rightarrow> real" where
  "js_div a b = to_double (a / b)"

text \<open>
  The three non-finite numbers that \<open>Number.isFinite\<close> tests for are separate
  constructors.
\<close>

datatype number = Finite real | PosInfinity | NegInfinity | NaN

text \<open>
  The Number value for a real \<open>x\<close>, as the language defines it: the double nearest to
  \<open>x\<close>, ties to the even significand; below \<open>2^-1022\<close> the doubles are the multiples of
  \<open>2^-1074\<close>; a value that rounds to \<open>2^1024\<close> or beyond is an infinity. The two zeros
  are one value.
\<close>

definition Number_value :: "real \<Rightarrow> number" where
  "Number_value x =
     (if \<bar>x\<bar> < 2 powr (- 1022)
      then Finite (of_int (round_ties_even (x * 2 ^ 1074)) / 2 ^ 1074)
      else if 2 ^ 1024 \<le> \<bar>to_double x\<bar> then (if 0 < x then PosInfinity else NegInfinity)
      else Finite (to_double x))"

text \<open>The errors that the modelled code can raise.\<close>

datatype js_error = StorageError | SyntaxError | TypeError

text \<open>
  A value as \<open>JSON.parse\<close> returns it, and \<open>undefined\<close>, the value of a missing
  property. An object is the association list of its own properties (the first entry of
  a key is the one read); no property of such a value is a function. A string is the
  list of the bytes of its UTF-8 encoding.
\<close>

datatype jsval =
    JUndefined
  | JNull
  | JBool bool
  | JNumber number
  | JString string
  | JArray "jsval list"
  | JObject "(string \<times> jsval) list"

text \<open>The truthiness test behind \<open>!raw\<close>, \<open>a || b\<close> and \<open>if (x)\<close>.\<close>

fun truthy :: "jsval \<Rightarrow> bool" where
  "truthy JUndefined = False"
| "truthy JNull = False"
| "truthy (JBool b) = b"
| "truthy (JNumber n) = (n \<noteq> NaN \<and> n \<noteq> Finite 0)"
| "truthy (JString s) = (s \<noteq> [])"
| "truthy (JArray vs) = True"
| "truthy (JObject kvs) = True"

text \<open>
  Property access \<open>v?.[k]\<close> and \<open>v[k]\<close> on a value that is not \<open>null\<close>. Only the own
  properties of plain objects are modelled: the keys read below are \<open>items\<close>,
  \<open>portions\<close>, catalog ids and portion keys, none of which is an index, \<open>length\<close> or an
  inherited property of a string, array, number or boolean.
\<close>

fun get_prop :: "jsval \<Rightarrow> string \<Rightarrow> jsval" where
  "get_prop (JObject kvs) k = (case map_of kvs k of Some v \<Rightarrow> v | None \<Rightarrow> JUndefined)"
| "get_prop v k = JUndefined"

subsection \<open>\<open>parseFloat\<close>\<close>

text \<open>
  \<open>parseFloat(v)\<close> converts \<open>v\<close> to a string, drops the leading white space and reads
  the longest prefix that is a decimal literal: an optional sign, then \<open>Infinity\<close> or
  digits with an optional fraction and an optional exponent; the result is the Number
  value of the literal. No such prefix gives \<open>NaN\<close>.

  White space is what the language's \<open>TrimString\<close> drops, the code points of
  \<open>WhiteSpace\<close> and \<open>LineTerminator\<close>: U+0009 to U+000D, U+0020, U+00A0, U+1680,
  U+2000 to U+200A, U+2028, U+2029, U+202F, U+205F, U+3000 and U+FEFF, here by their
  UTF-8 encodings.
\<close>

definition is_white_space :: "string \<Rightarrow> bool" where
  "is_white_space cp =
     (cp \<in> set
        [[CHR 0x09], [CHR 0x0A], [CHR 0x0B], [CHR 0x0C], [CHR 0x0D], [CHR 0x20],
         [CHR 0xC2, CHR 0xA0],
         [CHR 0xE1, CHR 0x9A, CHR 0x80],
         [CHR 0xE2, CHR 0x80, CHR 0x80], [CHR 0xE2, CHR 0x80, CHR 0x81],
         [CHR 0xE2, CHR 0x80, CHR 0x82], [CHR 0xE2, CHR 0x80, CHR 0x83],
         [CHR 0xE2, CHR 0x80, CHR 0x84], [CHR 0xE2, CHR 0x80, CHR 0x85],
         [CHR 0xE2, CHR 0x80, CHR 0x86], [CHR 0xE2, CHR 0x80, CHR 0x87],
         [CHR 0xE2, CHR 0x80, CHR 0x88], [CHR 0xE2, CHR 0x80, CHR 0x89],
         [CHR 0xE2, CHR 0x80, CHR 0x8A],
         [CHR 0xE2, CHR 0x80, CHR 0xA8], [CHR 0xE2, CHR 0x80, CHR 0xA9],
         [CHR 0xE2, CHR 0x80, CHR 0xAF],
         [CHR 0xE2, CHR 0x81, CHR 0x9F],
         [CHR 0xE3, CHR 0x80, CHR 0x80],
         [CHR 0xEF, CHR 0xBB, CHR 0xBF]])"

fun trim_start :: "string \<Rightarrow> string" where
  "trim_start (a # b # c # s) =
     (if is_white_space [a] then trim_start (b # c # s)
      else if is_white_space [a, b] then trim_start (c # s)
      else if is_white_space [a, b, c] then trim_start s
      else a # b # c # s)"
| "trim_start [a, b] =
     (if is_white_space [a] then trim_start [b]
      else if is_white_space [a, b] then []
      else [a, b])"
| "trim_start [a] = (if is_white_space [a] then [] else [a])"
| "trim_start [] = []"

definition is_digit :: "char \<Rightarrow> bool" where
  "is_digit c = (c \<in> set ''0123456789'')"

definition digit_value :: "char \<Rightarrow> nat" where
  "digit_value c = of_char c - 48"

definition digits_value :: "string \<Rightarrow> nat" where
  "digits_value ds = foldl (\<lambda>n c. 10 * n + digit_value c) 0 ds"

definition pow10 :: "int \<Rightarrow> real" where
  "pow10 e = (if 0 \<le> e then 10 ^ nat e else 1 / 10 ^ nat (- e))"

definition split_sign :: "string \<Rightarrow> real \<times> string" where
  "split_sign s =
     (case s of
        c # r \<Rightarrow> if c = CHR ''-'' then (-1, r) else if c = CHR ''+'' then (1, r) else (1, s)
      | [] \<Rightarrow> (1, s))"

definition exponent_part :: "string \<Rightarrow> int" where
  "exponent_part s =
     (case s of
        c # r \<Rightarrow>
          if c = CHR ''e'' \<or> c = CHR ''E'' then
            (let (sg, r') = split_sign r; ds = takeWhile is_digit r'
             in if ds = [] then 0
                else if sg < 0 then - int (digits_value ds) else int (digits_value ds))
          else 0
      | [] \<Rightarrow> 0)"

definition parseFloat_string :: "string \<Rightarrow> number" where
  "parseFloat_string s =
     (let (sg, body) = split_sign (trim_start s) in
      if take 8 body = ''Infinity'' then (if sg < 0 then NegInfinity else PosInfinity)
      else
        let ip = takeWhile is_digit body;
            r1 = dropWhile is_digit body;
            has_dot = (r1 \<noteq> [] \<and> hd r1 = CHR ''.'');
            fp = (if has_dot then takeWhile is_digit (tl r1) else []);
            r2 = (if has_dot then dropWhile is_digit (tl r1) else r1)
        in if ip = [] \<and> fp = [] then NaN
           else Number_value
                  (sg * (real (digits_value ip) + real (digits_value fp) / 10 ^ length fp)
                   * pow10 (exponent_part r2)))"

text \<open>
  The conversion to a string, \<open>ToString\<close>, raises \<open>TypeError\<close> on an object that has
  an own property \<open>toString\<close>: that property is no function, and the inherited \<open>valueOf\<close>
  returns the object itself, so no primitive value is found. An array converts to the
  texts of its elements joined by commas (\<open>null\<close> as the empty text), and so raises when
  one of its elements does.
\<close>

fun ToString_raises :: "jsval \<Rightarrow> bool" where
  "ToString_raises (JObject kvs) = (''toString'' \<in> fst ` set kvs)"
| "ToString_raises (JArray vs) = list_ex ToString_raises vs"
| "ToString_raises v = False"

text \<open>
  A number converts to the shortest decimal literal that reads back as that number, so
  \<open>parseFloat\<close> returns it (\<open>NaN\<close> and the infinities convert to \<open>NaN\<close> and
  \<open>Infinity\<close>). A comma ends every literal and is no white space, so an array reads as
  its first element does, and the empty array as the empty text. \<open>undefined\<close>, \<open>null\<close>,
  \<open>true\<close>, \<open>false\<close> and \<open>[object Object]\<close>, the text of an object without an own
  \<open>toString\<close>, have no leading literal.
\<close>

fun parseFloat :: "jsval \<Rightarrow> js_error + number" where
  "parseFloat (JNumber n) = Inr n"
| "parseFloat (JString s) = Inr (parseFloat_string s)"
| "parseFloat (JArray []) = Inr NaN"
| "parseFloat (JArray (v # vs)) =
     (if list_ex ToString_raises (v # vs) then Inl TypeError else parseFloat v)"
| "parseFloat (JObject kvs) =
     (if ToString_raises (JObject kvs) then Inl TypeError else Inr NaN)"
| "parseFloat v = Inr NaN"

text \<open>
  \<open>Math.round\<close> returns the nearest integer, a tie going up; \<open>%\<close> on integers takes
  the sign of the dividend. Both are exact on doubles.
\<close>

definition Math_round :: "real \<Rightarrow> int" where
  "Math_round x = \<lfloor>x + 1 / 2\<rfloor>"

definition js_rem :: "int \<Rightarrow> int \<Rightarrow> int" where
  "js_rem a b = (if 0 \<le> a then a mod \<bar>b\<bar> else - ((- a) mod \<bar>b\<bar>))"

text \<open>
  \<open>Math.atan2(y, x)\<close>, the angle of the point \<open>(x, y)\<close>, from \<^const>\<open>arctan\<close>. The
  language leaves the accuracy of \<open>Math.sin\<close>, \<open>Math.cos\<close>, \<open>Math.sqrt\<close> and
  \<open>Math.atan2\<close> to the implementation; they are modelled by the exact real functions.
\<close>

definition Math_atan2 :: "real \<Rightarrow> real \<Rightarrow> real" where
  "Math_atan2 y x =
     (if 0 < x then arctan (y / x)
      else if x < 0 then (if 0 \<le> y then arctan (y / x) + pi else arctan (y / x) - pi)
      else if 0 < y then pi / 2
      else if y < 0 then - (pi / 2)
      else 0)"

section \<open>Menu data (part\_000)\<close>

text \<open>
  A menu item is \<open>{id, name, price, description, image}\<close>. The description and the image
  path are display text that no pricing or cart function reads; they are left out.
  The field \<open>id\<close> is named \<open>itemId\<close> here. Every price of the catalog is a multiple of
  0.5 and so is a double.
\<close>

record menu_item =
  itemId :: string
  name :: string
  price :: real

definition mains :: "menu_item list" where
  "mains =
    [\<lparr>itemId = ''beef_ribs'', name = ''Beef Ribs'', price = 16\<rparr>,
     \<lparr>itemId = ''beef_burgers'', name = ''Lamb Burger'', price = 11 / 2\<rparr>,
     \<lparr>itemId = ''beef_patties'', name = ''Beef Patties'', price = 7 / 2\<rparr>,
     \<lparr>itemId = ''chicken_wings'', name = ''Chicken Wings'', price = 11\<rparr>,
     \<lparr>itemId = ''chicken_quarter'', name = ''Chicken Quarter Legs'', price = 18\<rparr>,
     \<lparr>itemId = ''snapper'', name = ''Snapper Fish'', price = 26\<rparr>,
     \<lparr>itemId = ''tilapia'', name = ''Tilapia (w/ Head)'', price = 21\<rparr>,
     \<lparr>itemId = ''salmon'', name = ''Salmon'', price = 21\<rparr>,
     \<lparr>itemId = ''chicken_kabobs'', name = ''Chicken Kabobs'', price = 11\<rparr>,
     \<lparr>itemId = ''beef_kabobs'', name = ''Beef Kabobs'', price = 11\<rparr>,
     \<lparr>itemId = ''shrimp_kabobs'', name = ''Shrimp Kabobs'', price = 11\<rparr>,
     \<lparr>itemId = ''kg_mystery'', name = ''KG Surprise Item'', price = 4\<rparr>]"

definition sides :: "menu_item list" where
  "sides =
    [\<lparr>itemId = ''jollof_rice'', name = ''Jollof Rice'', price = 6\<rparr>,
     \<lparr>itemId = ''mac_cheese'', name = ''Mac & Cheese'', price = 6\<rparr>,
     \<lparr>itemId = ''potato_wedges'', name = ''Potato Wedges'', price = 6\<rparr>,
     \<lparr>itemId = ''cassava_leaf'', name = ''Cassava Leaf'', price = 43 / 2\<rparr>,
     \<lparr>itemId = ''potato_greens'', name = ''Potato Greens & White Rice'', price = 43 / 2\<rparr>,
     \<lparr>itemId = ''side_chicken_wing'', name = ''Chicken Wing (1 piece)'', price = 7 / 2\<rparr>,
     \<lparr>itemId = ''side_chicken_kabob'', name = ''Chicken Kabob (1 piece)'', price = 7 / 2\<rparr>,
     \<lparr>itemId = ''side_beef_kabob'', name = ''Beef Kabob (1 piece)'', price = 7 / 2\<rparr>,
     \<lparr>itemId = ''side_shrimp_kabob'', name = ''Shrimp Kabob (1 piece)'', price = 7 / 2\<rparr>]"

record portion_option =
  key :: string
  label :: string
  onlinePrice :: real
  inlinePrice :: real

definition kabob_options :: "portion_option list" where
  "kabob_options =
    [\<lparr>key = ''2_kabobs'', label = ''2 kabobs'', onlinePrice = 12, inlinePrice = 10\<rparr>,
     \<lparr>key = ''3_kabobs'', label = ''3 kabobs'', onlinePrice = 15, inlinePrice = 13\<rparr>,
     \<lparr>key = ''4_kabobs'', label = ''4 kabobs'', onlinePrice = 18, inlinePrice = 15\<rparr>]"

text \<open>The object \<open>portionOptions\<close>, in the order of its keys.\<close>

definition portionOptions :: "(string \<times> portion_option list) list" where
  "portionOptions =
    [(''beef_ribs'',
      [\<lparr>key = ''1_rib'', label = ''1 rib'', onlinePrice = 16, inlinePrice = 15\<rparr>,
       \<lparr>key = ''2_ribs'', label = ''2 ribs'', onlinePrice = 21, inlinePrice = 20\<rparr>,
       \<lparr>key = ''3_ribs'', label = ''3 ribs'', onlinePrice = 26, inlinePrice = 25\<rparr>]),
     (''chicken_wings'',
      [\<lparr>key = ''2_wings'', label = ''2 wings'', onlinePrice = 11, inlinePrice = 10\<rparr>,
       \<lparr>key = ''3_wings'', label = ''3 wings'', onlinePrice = 15, inlinePrice = 13\<rparr>,
       \<lparr>key = ''4_wings'', label = ''4 wings'', onlinePrice = 18, inlinePrice = 15\<rparr>]),
     (''chicken_quarter'',
      [\<lparr>key = ''1_leg'', label = ''1 leg'', onlinePrice = 15, inlinePrice = 12\<rparr>,
       \<lparr>key = ''2_legs'', label = ''2 legs'', onlinePrice = 23, inlinePrice = 19\<rparr>,
       \<lparr>key = ''3_legs'', label = ''3 legs'', onlinePrice = 30, inlinePrice = 26\<rparr>]),
     (''chicken_kabobs'', kabob_options),
     (''beef_kabobs'', kabob_options),
     (''shrimp_kabobs'', kabob_options)]"

section \<open>Baseline pricing (part\_000)\<close>

definition single_piece_sides :: "string list" where
  "single_piece_sides =
     [''side_chicken_wing'', ''side_chicken_kabob'', ''side_beef_kabob'', ''side_shrimp_kabob'']"

definition computeInlineBasePrice :: "real \<Rightarrow> string \<Rightarrow> real" where
  "computeInlineBasePrice basePrice itemId' =
     (if itemId' \<in> set single_piece_sides then 3
      else
        let cents = Math_round (js_mul basePrice 100);
            price1 = (if js_rem cents 100 = 50 then js_div (js_sub (real_of_int cents) 50) 100
                      else basePrice)
        in if \<bar>js_sub price1 16\<bar> < to_double (1 / 1000) then 15 else price1)"

text \<open>
  An entry of the baseline table, \<open>{inlinePrice, onlinePrice, markup}\<close>; the fields carry
  the prefix \<open>base\<close>. A portion entry's \<open>label\<close> is display text and is left out.
  The tables are maps from the keys the code stores; what a JavaScript object inherits
  (\<open>constructor\<close>, \<open>toString\<close>, ...) is no entry.
\<close>

record baseline_entry =
  baseInline :: real
  baseOnline :: real
  baseMarkup :: real

text \<open>
  Both the baseline table and the overrides document are objects \<open>{items, portions}\<close>.
\<close>

record ('i, 'p) store =
  items :: 'i
  portions :: 'p

type_synonym baseline_pricing =
  "(string \<rightharpoonup> baseline_entry, string \<rightharpoonup> (string \<rightharpoonup> baseline_entry)) store"

type_synonym price_overrides = "(jsval, jsval) store"

definition item_entry :: "menu_item \<Rightarrow> baseline_entry" where
  "item_entry item =
     (let inlinePrice' = computeInlineBasePrice (price item) (itemId item)
      in \<lparr>baseInline = inlinePrice', baseOnline = price item,
          baseMarkup = js_sub (price item) inlinePrice'\<rparr>)"

definition option_entry :: "portion_option \<Rightarrow> baseline_entry" where
  "option_entry opt =
     \<lparr>baseInline = inlinePrice opt, baseOnline = onlinePrice opt,
      baseMarkup = js_sub (onlinePrice opt) (inlinePrice opt)\<rparr>"

definition buildBaselinePricing :: baseline_pricing where
  "buildBaselinePricing =
     \<lparr>items = foldl (\<lambda>m item. m(itemId item \<mapsto> item_entry item)) Map.empty (mains @ sides),
      portions =
        foldl (\<lambda>m (itemId', options).
                 m(itemId' \<mapsto> foldl (\<lambda>pm opt. pm(key opt \<mapsto> option_entry opt)) Map.empty options))
          Map.empty portionOptions\<rparr>"

definition BASELINE_PRICING :: baseline_pricing where
  "BASELINE_PRICING = buildBaselinePricing"

section \<open>Override store and effective price resolver (part\_000)\<close>

text \<open>
  \<open>readNumber\<close> has no \<open>try\<close>: an error that \<open>parseFloat\<close> raises is raised by
  \<open>readNumber\<close> and by its caller \<open>getEffectivePrices\<close>.
\<close>

definition readNumber :: "jsval \<Rightarrow> js_error + real option" where
  "readNumber val =
     (case parseFloat val of
        Inl err \<Rightarrow> Inl err
      | Inr (Finite num) \<Rightarrow> Inr (Some num)
      | Inr _ \<Rightarrow> Inr None)"

definition empty_overrides :: price_overrides where
  "empty_overrides = \<lparr>items = JObject [], portions = JObject []\<rparr>"

text \<open>
  What \<open>loadPriceOverrides\<close> finds in local storage, by what the two built-ins it calls
  make of it: \<open>getItem\<close> raises (storage disabled), returns \<open>null\<close>, returns the empty
  string, returns text on which \<open>JSON.parse\<close> raises, or returns text that parses to a
  value.
\<close>

datatype stored = GetItemThrows | NoEntry | EmptyText | Unparsable | Document jsval

definition or_empty_object :: "jsval \<Rightarrow> jsval" where
  "or_empty_object v = (if truthy v then v else JObject [])"

text \<open>The body of the \<open>try\<close> block; reading a property of \<open>null\<close> or \<open>undefined\<close>
  raises.\<close>

fun loadPriceOverrides_try :: "stored \<Rightarrow> js_error + price_overrides" where
  "loadPriceOverrides_try GetItemThrows = Inl StorageError"
| "loadPriceOverrides_try NoEntry = Inr empty_overrides"
| "loadPriceOverrides_try EmptyText = Inr empty_overrides"
| "loadPriceOverrides_try Unparsable = Inl SyntaxError"
| "loadPriceOverrides_try (Document JNull) = Inl TypeError"
| "loadPriceOverrides_try (Document JUndefined) = Inl TypeError"
| "loadPriceOverrides_try (Document parsed) =
     Inr \<lparr>items = or_empty_object (get_prop parsed ''items''),
          portions = or_empty_object (get_prop parsed ''portions'')\<rparr>"

definition loadPriceOverrides :: "stored \<Rightarrow> price_overrides" where
  "loadPriceOverrides st =
     (case loadPriceOverrides_try st of Inl err \<Rightarrow> empty_overrides | Inr ov \<Rightarrow> ov)"

record effective_prices =
  inline :: real
  online :: real
  markup :: real

text \<open>
  A portion key is \<open>null\<close> or a string. \<open>k || null\<close> and the test \<open>if (k)\<close> take
  the empty string for no key. \<open>v?.[k]\<close> is \<open>undefined\<close> when \<open>v\<close> is \<open>null\<close> or
  \<open>undefined\<close>, which is what \<^const>\<open>get_prop\<close> returns there.
\<close>

definition or_null :: "string option \<Rightarrow> string option" where
  "or_null k = (case k of Some s \<Rightarrow> if s = [] then None else Some s | None \<Rightarrow> None)"

text \<open>
  The last three lines of either branch of \<open>getEffectivePrices\<close>: the override, when
  \<open>readNumber\<close> found one, replaces the baseline inline price, and the online price is
  the inline price plus the baseline markup.
\<close>

definition effective_of :: "baseline_entry \<Rightarrow> real option \<Rightarrow> effective_prices" where
  "effective_of base overrideInline =
     (let inline' = (case overrideInline of Some v \<Rightarrow> v | None \<Rightarrow> baseInline base)
      in \<lparr>inline = inline', online = js_add inline' (baseMarkup base),
          markup = baseMarkup base\<rparr>)"

definition getEffectivePrices ::
  "string \<Rightarrow> string option \<Rightarrow> price_overrides \<Rightarrow> js_error + effective_prices option" where
  "getEffectivePrices itemId' portionKey overrides =
     (case or_null portionKey of
        Some k \<Rightarrow>
          (case Option.bind (portions BASELINE_PRICING itemId') (\<lambda>pm. pm k) of
             None \<Rightarrow> Inr None
           | Some base \<Rightarrow>
               (case readNumber (get_prop (get_prop (portions overrides) itemId') k) of
                  Inl err \<Rightarrow> Inl err
                | Inr overrideInline \<Rightarrow> Inr (Some (effective_of base overrideInline))))
      | None \<Rightarrow>
          (case items BASELINE_PRICING itemId' of
             None \<Rightarrow> Inr None
           | Some base \<Rightarrow>
               (case readNumber (get_prop (items overrides) itemId') of
                  Inl err \<Rightarrow> Inl err
                | Inr overrideInline \<Rightarrow> Inr (Some (effective_of base overrideInline)))))"

section \<open>Cart and totals (part\_001)\<close>

text \<open>
  A cart line is the menu item spread into a new object, with \<open>name\<close> and \<open>price\<close>
  overwritten and the cart's own fields added. A property that a line may lack
  (\<open>plateOptionKey\<close>, \<open>sauce\<close>, ...) or that may hold \<open>null\<close> (\<open>baseInlinePrice\<close>) is
  an option.
\<close>

record cart_line = menu_item +
  quantity :: int
  baseOnlinePrice :: real
  baseInlinePrice :: "real option"
  plateOptionKey :: "string option"
  plateOptionLabel :: "string option"
  sauce :: "string option"
  freeSide :: "string option"

definition freeSideEligibleIds :: "string list" where
  "freeSideEligibleIds =
     map itemId
       (filter (\<lambda>item. itemId item \<notin> set [''beef_burgers'', ''beef_patties'', ''kg_mystery''])
          mains)"

definition sauceEligibleIds :: "string list" where
  "sauceEligibleIds =
     [''beef_ribs'', ''beef_burgers'', ''chicken_wings'', ''chicken_quarter'',
      ''snapper'', ''tilapia'', ''salmon'',
      ''chicken_kabobs'', ''beef_kabobs'', ''shrimp_kabobs'']"

definition freeSideChoices :: "(string \<times> string) list" where
  "freeSideChoices =
     [(''jollof_rice'', ''Jollof Rice''), (''mac_cheese'', ''Mac & Cheese''),
      (''potato_wedges'', ''Potato Wedges'')]"

text \<open>
  The radio group \<open>orderType\<close>: the value of the checked input, if one is checked;
  \<open>?.value || 'pickup'\<close> falls back to pickup.
\<close>

definition getCurrentOrderType :: "string option \<Rightarrow> string" where
  "getCurrentOrderType checked =
     (case checked of Some v \<Rightarrow> if v = [] then ''pickup'' else v | None \<Rightarrow> ''pickup'')"

text \<open>
  part\_001 takes \<open>getEffectivePrices\<close>, \<open>loadPriceOverrides\<close> and
  \<open>computeInlineBasePrice\<close> from \<open>window.KG_MENU_DATA\<close>, which part\_000 sets; its own
  copy of \<open>computeInlineBasePrice\<close> is the same text. \<open>priceOverrides\<close> is the module
  variable holding the loaded overrides.
\<close>

definition getEffectivePricingForItem ::
  "price_overrides \<Rightarrow> 'a menu_item_scheme \<Rightarrow> string option
   \<Rightarrow> js_error + effective_prices option" where
  "getEffectivePricingForItem priceOverrides item portionKey =
     (case getEffectivePrices (itemId item) portionKey priceOverrides of
        Inl err \<Rightarrow> Inl err
      | Inr (Some pricing) \<Rightarrow> Inr (Some pricing)
      | Inr None \<Rightarrow>
          Inr
          (case or_null portionKey of
             Some k \<Rightarrow>
               (let opts = (case map_of portionOptions (itemId item) of
                              Some os \<Rightarrow> os | None \<Rightarrow> []);
                    fallback = (case find (\<lambda>o'. key o' = k) opts of
                                  Some o' \<Rightarrow> Some o'
                                | None \<Rightarrow> (case opts of o' # _ \<Rightarrow> Some o' | [] \<Rightarrow> None))
                in case fallback of
                     Some f \<Rightarrow>
                       Some \<lparr>inline = inlinePrice f, online = onlinePrice f,
                             markup = js_sub (onlinePrice f) (inlinePrice f)\<rparr>
                   | None \<Rightarrow> None)
           | None \<Rightarrow>
               (let inline' = computeInlineBasePrice (price item) (itemId item)
                in Some \<lparr>inline = inline', online = price item,
                         markup = js_sub (price item) inline'\<rparr>)))"

text \<open>\<open>Array.prototype.findIndex\<close>; \<open>None\<close> stands for \<open>-1\<close>.\<close>

fun findIndex :: "('a \<Rightarrow> bool) \<Rightarrow> 'a list \<Rightarrow> nat option" where
  "findIndex P [] = None"
| "findIndex P (x # xs) =
     (if P x then Some 0 else map_option Suc (findIndex P xs))"

text \<open>
  \<open>addToCart(item, portionOption)\<close> on the cart array. Its other inputs are the
  \<open>orderingClosed\<close> flag read by \<open>ensureOrderingOpenOrWarn\<close>, the checked order type
  and the loaded overrides. \<open>cart.find\<close> returns the first matching line, which is then
  changed in place. The calls after the mutation (points, \<open>openCart\<close>, \<open>renderCart\<close>,
  \<open>updateCartTotals\<close>, \<open>updateCartButton\<close>) write no cart line.
  The display name joins the item name and the portion label with an en dash.
  The pricing lookup comes before every write to the cart and has no \<open>try\<close> around it:
  when it raises, \<open>addToCart\<close> raises and the cart is as it was. The result is the
  error, or the cart after the call.
\<close>

definition same_line :: "string \<Rightarrow> string option \<Rightarrow> cart_line \<Rightarrow> bool" where
  "same_line itemId' plateOptionKey' ci =
     (itemId ci = itemId' \<and> or_null (plateOptionKey ci) = or_null plateOptionKey')"

definition addToCart ::
  "bool \<Rightarrow> string option \<Rightarrow> price_overrides \<Rightarrow> menu_item \<Rightarrow> portion_option option
   \<Rightarrow> cart_line list \<Rightarrow> js_error + cart_line list" where
  "addToCart orderingClosed checked priceOverrides item portionOption cart =
     (if orderingClosed then Inr cart
      else
        case getEffectivePricingForItem priceOverrides item
               (or_null (map_option key portionOption)) of
          Inl err \<Rightarrow> Inl err
        | Inr pricing \<Rightarrow>
        Inr (
        let orderType = getCurrentOrderType checked;
            baseOnlinePrice' = (case pricing of Some p \<Rightarrow> online p | None \<Rightarrow> price item);
            baseInlinePrice0 = map_option inline pricing;
            plateOptionKey' = map_option key portionOption;
            plateOptionLabel' = map_option label portionOption;
            displayName =
              (case portionOption of
                 Some po \<Rightarrow> name item @ [CHR '' '', CHR 0xE2, CHR 0x80, CHR 0x93, CHR '' '']
                             @ label po
               | None \<Rightarrow> name item);
            baseInlinePrice' =
              (case portionOption of
                 Some po \<Rightarrow> baseInlinePrice0
               | None \<Rightarrow>
                   (case baseInlinePrice0 of
                      Some v \<Rightarrow> Some v
                    | None \<Rightarrow> Some (computeInlineBasePrice baseOnlinePrice' (itemId item))));
            effectivePrice =
              (if orderType = ''inline''
               then (case baseInlinePrice' of Some v \<Rightarrow> v | None \<Rightarrow> baseOnlinePrice')
               else baseOnlinePrice')
        in case findIndex (same_line (itemId item) plateOptionKey') cart of
             Some idx \<Rightarrow>
               cart[idx := (cart ! idx)
                      \<lparr>price := effectivePrice,
                       quantity := quantity (cart ! idx) + 1,
                       baseOnlinePrice := baseOnlinePrice',
                       baseInlinePrice := baseInlinePrice'\<rparr>]
           | None \<Rightarrow>
               cart @
               [\<lparr>itemId = itemId item, name = displayName, price = effectivePrice,
                 quantity = 1,
                 baseOnlinePrice = baseOnlinePrice',
                 baseInlinePrice = baseInlinePrice',
                 plateOptionKey = or_null plateOptionKey',
                 plateOptionLabel = (if or_null plateOptionKey' = None then None
                                     else plateOptionLabel'),
                 sauce = (if itemId item \<in> set sauceEligibleIds then Some ''none'' else None),
                 freeSide =
                   (if itemId item \<in> set freeSideEligibleIds
                    then Some (case freeSideChoices of c # _ \<Rightarrow> fst c | [] \<Rightarrow> [])
                    else None)\<rparr>]))"

text \<open>
  \<open>updateQuantity(itemId, delta)\<close>: the line is looked up by item id alone; a quantity
  that reaches zero or less removes the line (\<open>splice\<close>).
\<close>

definition updateQuantity :: "string \<Rightarrow> int \<Rightarrow> cart_line list \<Rightarrow> cart_line list" where
  "updateQuantity itemId' delta cart =
     (case findIndex (\<lambda>ci. itemId ci = itemId') cart of
        None \<Rightarrow> cart
      | Some idx \<Rightarrow>
          let cart1 = cart[idx := (cart ! idx)\<lparr>quantity := quantity (cart ! idx) + delta\<rparr>]
          in if quantity (cart1 ! idx) \<le> 0 then take idx cart1 @ drop (Suc idx) cart1
             else cart1)"

text \<open>
  \<open>renderCart\<close> draws one row per cart line and wires the row's two buttons to
  \<open>updateQuantity(item.id, -1)\<close> and \<open>updateQuantity(item.id, 1)\<close>. A click on the
  button of row \<open>row\<close> of the rendered cart:
\<close>

definition clickDecrease :: "nat \<Rightarrow> cart_line list \<Rightarrow> cart_line list" where
  "clickDecrease row cart = updateQuantity (itemId (cart ! row)) (- 1) cart"

definition clickIncrease :: "nat \<Rightarrow> cart_line list \<Rightarrow> cart_line list" where
  "clickIncrease row cart = updateQuantity (itemId (cart ! row)) 1 cart"

text \<open>
  \<open>computeTotals()\<close> reads the cart, the checked order type and the two module
  variables \<open>deliveryFee\<close> and \<open>currentTipAmount\<close>. \<open>x || 0\<close> replaces a falsy number
  (here: zero) by zero. The call \<open>setInlinePreviewMode(false)\<close> only touches the page.
  A quantity is a whole number, far below \<open>2^53\<close>, and is an \<^typ>\<open>int\<close>.
\<close>

record totals =
  subtotal :: real
  fees :: real
  deliveryFee :: real
  tip :: real
  grand :: real

definition or_zero :: "real \<Rightarrow> real" where
  "or_zero x = (if x = 0 then 0 else x)"

definition computeTotals :: "cart_line list \<Rightarrow> string option \<Rightarrow> real \<Rightarrow> real \<Rightarrow> totals" where
  "computeTotals cart checked deliveryFee' currentTipAmount =
     (let subtotal' =
            foldl (\<lambda>sum item. js_add sum (js_mul (price item) (real_of_int (quantity item))))
              0 cart;
          orderType = getCurrentOrderType checked;
          fees' = 0;
          delivery = (if orderType = ''delivery'' then or_zero deliveryFee' else 0);
          tip' = (if orderType = ''delivery'' then or_zero currentTipAmount else 0);
          total = js_add (js_add (js_add subtotal' fees') delivery) tip'
      in \<lparr>subtotal = subtotal', fees = fees', deliveryFee = delivery, tip = tip',
          grand = total\<rparr>)"

section \<open>Delivery distance (part\_001)\<close>

text \<open>
  The haversine formula, in exact real arithmetic: its value rests on the
  implementation's \<open>Math.sin\<close>, \<open>Math.cos\<close>, \<open>Math.sqrt\<close> and \<open>Math.atan2\<close>, which have
  no rounding rule to model.
\<close>

definition computeDistanceMiles :: "real \<Rightarrow> real \<Rightarrow> real \<Rightarrow> real \<Rightarrow> real" where
  "computeDistanceMiles lat1 lon1 lat2 lon2 =
     (let toRad = (\<lambda>deg. deg * pi / 180);
          R = 6371;
          dLat = toRad (lat2 - lat1);
          dLon = toRad (lon2 - lon1);
          a = (sin (dLat / 2))\<^sup>2 + cos (toRad lat1) * cos (toRad lat2) * (sin (dLon / 2))\<^sup>2;
          c = 2 * Math_atan2 (sqrt a) (sqrt (1 - a));
          distanceKm = R * c
      in distanceKm * (621371 / 1000000))"

section \<open>Notions used to state the properties\<close>

text \<open>
  The baseline entry and the override entry that \<open>getEffectivePrices\<close> reads for an item
  (no portion key) or for an item and a portion key.
\<close>

definition baseline_lookup :: "string \<Rightarrow> string option \<Rightarrow> baseline_entry option" where
  "baseline_lookup itemId' portionKey =
     (case or_null portionKey of
        Some k \<Rightarrow> Option.bind (portions BASELINE_PRICING itemId') (\<lambda>pm. pm k)
      | None \<Rightarrow> items BASELINE_PRICING itemId')"

definition override_lookup :: "price_overrides \<Rightarrow> string \<Rightarrow> string option \<Rightarrow> jsval" where
  "override_lookup overrides itemId' portionKey =
     (case or_null portionKey of
        Some k \<Rightarrow> get_prop (get_prop (portions overrides) itemId') k
      | None \<Rightarrow> get_prop (items overrides) itemId')"

text \<open>
  The effective inline price that the resolver returns for a key (\<open>None\<close> when the key
  has no baseline entry), or the error that it raises.
\<close>

definition effective_inline ::
  "string \<Rightarrow> string option \<Rightarrow> price_overrides \<Rightarrow> js_error + real option" where
  "effective_inline itemId' portionKey overrides =
     (case getEffectivePrices itemId' portionKey overrides of
        Inl err \<Rightarrow> Inl err
      | Inr pricing \<Rightarrow> Inr (map_option inline pricing))"

text \<open>
  Text that cannot continue a literal of decimal digits: the empty text, or text whose
  first character is no digit, no point and no exponent letter.
\<close>

definition ends_literal :: "string \<Rightarrow> bool" where
  "ends_literal t = (case t of [] \<Rightarrow> True | c # r \<Rightarrow> c \<notin> set ''0123456789.eE'')"

text \<open>A present, numeric, finite override value: a JavaScript number that is finite.\<close>

fun is_finite_number :: "jsval \<Rightarrow> bool" where
  "is_finite_number (JNumber (Finite r)) = True"
| "is_finite_number v = False"

fun is_object :: "jsval \<Rightarrow> bool" where
  "is_object (JObject kvs) = True"
| "is_object v = False"

text \<open>
  The shape of the overrides document,
  \<open>{items: {itemId: number}, portions: {itemId: {portionKey: number}}}\<close>.
\<close>

fun is_price_map :: "jsval \<Rightarrow> bool" where
  "is_price_map (JObject kvs) = list_all (\<lambda>kv. is_finite_number (snd kv)) kvs"
| "is_price_map v = False"

fun is_portion_map :: "jsval \<Rightarrow> bool" where
  "is_portion_map (JObject kvs) = list_all (\<lambda>kv. is_price_map (snd kv)) kvs"
| "is_portion_map v = False"

definition well_formed_overrides :: "jsval \<Rightarrow> bool" where
  "well_formed_overrides d =
     (is_object d \<and> is_price_map (get_prop d ''items'')
      \<and> is_portion_map (get_prop d ''portions''))"

text \<open>The catalog entries of the scenarios below.\<close>

definition chicken_wings :: menu_item where
  "chicken_wings = \<lparr>itemId = ''chicken_wings'', name = ''Chicken Wings'', price = 11\<rparr>"

definition two_wings :: portion_option where
  "two_wings = \<lparr>key = ''2_wings'', label = ''2 wings'', onlinePrice = 11, inlinePrice = 10\<rparr>"

definition three_wings :: portion_option where
  "three_wings = \<lparr>key = ''3_wings'', label = ''3 wings'', onlinePrice = 15, inlinePrice = 13\<rparr>"

text \<open>
  A customer on the pickup channel, ordering open, no overrides stored, puts a portion of
  chicken wings into the cart; the cart after the call.
\<close>

definition add_wings :: "portion_option \<Rightarrow> cart_line list \<Rightarrow> cart_line list" where
  "add_wings po cart =
     (case addToCart False (Some ''pickup'') empty_overrides chicken_wings (Some po) cart of
        Inr cart' \<Rightarrow> cart'
      | Inl err \<Rightarrow> cart)"

text \<open>What a cart shows of its lines: item, portion key and quantity.\<close>

definition line_summary :: "cart_line \<Rightarrow> string \<times> string option \<times> int" where
  "line_summary ci = (itemId ci, plateOptionKey ci, quantity ci)"

section \<open>Rounding to doubles\<close>

lemma round_ties_even_of_int: "round_ties_even (of_int m) = m"
  by (simp add: round_ties_even_def)

lemma round_ties_even_cases:
  "(round_ties_even r = \<lfloor>r\<rfloor> \<and> r - of_int \<lfloor>r\<rfloor> \<le> 1 / 2)
   \<or> (round_ties_even r = \<lfloor>r\<rfloor> + 1 \<and> 1 / 2 \<le> r - of_int \<lfloor>r\<rfloor>)"
  unfolding round_ties_even_def Let_def by (auto simp: not_less)

lemma round_ties_even_bounds:
  "of_int (round_ties_even r) \<le> r + 1 / 2" "r - 1 / 2 \<le> of_int (round_ties_even r)"
proof -
  have f: "of_int \<lfloor>r\<rfloor> \<le> r" "r < of_int \<lfloor>r\<rfloor> + 1"
    by linarith+
  show "of_int (round_ties_even r) \<le> r + 1 / 2"
    using round_ties_even_cases [of r]
  proof (elim disjE conjE)
    assume a: "round_ties_even r = \<lfloor>r\<rfloor>"
    show ?thesis unfolding a by linarith
  next
    assume "round_ties_even r = \<lfloor>r\<rfloor> + 1" "1 / 2 \<le> r - of_int \<lfloor>r\<rfloor>"
    then show ?thesis by simp
  qed
  show "r - 1 / 2 \<le> of_int (round_ties_even r)"
    using round_ties_even_cases [of r]
  proof (elim disjE conjE)
    assume "round_ties_even r = \<lfloor>r\<rfloor>" "r - of_int \<lfloor>r\<rfloor> \<le> 1 / 2"
    then show ?thesis by simp
  next
    assume a: "round_ties_even r = \<lfloor>r\<rfloor> + 1"
    show ?thesis unfolding a by (simp only: of_int_add of_int_1) linarith
  qed
qed

lemma round_ties_even_nonneg: "0 \<le> r \<Longrightarrow> 0 \<le> round_ties_even r"
  by (simp add: round_ties_even_def Let_def)

lemma to_double_0: "to_double 0 = 0"
  by (simp add: to_double_def)

text \<open>The rounding of a number whose binade is known.\<close>

lemma to_double_binade:
  assumes "2 powr (of_int e) \<le> \<bar>x\<bar>" "\<bar>x\<bar> < 2 powr (of_int e + 1)"
  shows "to_double x
           = of_int (round_ties_even (x / 2 powr (of_int e - 52))) * 2 powr (of_int e - 52)"
proof -
  have pos: "0 < \<bar>x\<bar>"
    using assms(1) by (smt (verit) powr_gt_zero)
  have "\<lfloor>log 2 \<bar>x\<bar>\<rfloor> = e"
    using assms pos by (simp add: floor_log_eq_powr_iff)
  then show ?thesis
    using pos by (simp add: to_double_def Let_def)
qed

text \<open>A number with a significand of at most 53 bits is a double.\<close>

lemma to_double_representable:
  assumes "\<bar>n\<bar> < 2 ^ 53"
  shows "to_double (of_int n * 2 powr (of_int j)) = of_int n * 2 powr (of_int j)"
proof (cases "n = 0")
  case True
  then show ?thesis by (simp add: to_double_0)
next
  case False
  define x :: real where "x = of_int n * 2 powr (of_int j)"
  define e where "e = \<lfloor>log 2 \<bar>x\<bar>\<rfloor>"
  have xpos: "0 < \<bar>x\<bar>"
    using False by (simp add: x_def)
  have e: "2 powr (of_int e) \<le> \<bar>x\<bar>" "\<bar>x\<bar> < 2 powr (of_int e + 1)"
    using xpos floor_log_eq_powr_iff [of "\<bar>x\<bar>" 2 e] by (simp_all add: e_def)
  have "\<bar>x\<bar> = \<bar>of_int n\<bar> * 2 powr (of_int j)"
    by (simp add: x_def abs_mult)
  also have "\<dots> < 2 ^ 53 * 2 powr (of_int j)"
  proof -
    have "\<bar>real_of_int n\<bar> < 2 ^ 53"
      using assms by (metis of_int_abs of_int_less_numeral_power_cancel_iff)
    then show ?thesis by simp
  qed
  also have "\<dots> = 2 powr (53 + of_int j)"
    by (simp add: powr_add powr_numeral)
  finally have "(2::real) powr (of_int e) < 2 powr (53 + of_int j)"
    using e(1) by linarith
  then have "of_int e < (53::real) + of_int j"
    by simp
  then have le: "e - 52 \<le> j"
    by linarith
  define k where "k = nat (j - (e - 52))"
  have k: "of_int j - (of_int e - 52) = real k"
    using le by (simp add: k_def)
  have "x / 2 powr (of_int e - 52) = of_int n * 2 powr (of_int j - (of_int e - 52))"
    by (simp add: x_def powr_diff)
  also have "\<dots> = of_int n * 2 ^ k"
    by (simp only: k powr_realpow)
  also have "\<dots> = of_int (n * 2 ^ k)"
    by simp
  finally have "round_ties_even (x / 2 powr (of_int e - 52)) = n * 2 ^ k"
    by (simp only: round_ties_even_of_int)
  then have "to_double x = of_int (n * 2 ^ k) * 2 powr (of_int e - 52)"
    using to_double_binade [OF e] by simp
  also have "\<dots> = of_int n * (2 powr (real k) * 2 powr (of_int e - 52))"
    by (simp add: powr_realpow)
  also have "2 powr (real k) * 2 powr (of_int e - 52) = 2 powr (of_int j)"
    by (simp only: powr_add [symmetric] k [symmetric]) simp
  finally show ?thesis
    by (simp add: x_def)
qed

lemma to_double_of_int: "\<bar>n\<bar> < 2 ^ 53 \<Longrightarrow> to_double (of_int n) = of_int n"
  using to_double_representable [of n 0] by simp

lemma to_double_numeral:
  "numeral n < (2::int) ^ 53 \<Longrightarrow> to_double (numeral n) = numeral n"
  using to_double_of_int [of "numeral n"] by simp

lemma to_double_neg_numeral:
  "numeral n < (2::int) ^ 53 \<Longrightarrow> to_double (- numeral n) = - numeral n"
  using to_double_of_int [of "- numeral n"] by simp

lemma to_double_1: "to_double 1 = 1"
  using to_double_of_int [of 1] by simp

lemma to_double_half_numeral:
  "numeral n < (2::int) ^ 53 \<Longrightarrow> to_double (numeral n / 2) = numeral n / 2"
  using to_double_representable [of "numeral n" "-1"] by (simp add: powr_minus)

lemma to_double_half: "to_double (1 / 2) = 1 / 2"
  using to_double_representable [of 1 "-1"] by (simp add: powr_minus)

lemma to_double_nonneg: "0 \<le> x \<Longrightarrow> 0 \<le> to_double x"
  by (simp add: to_double_def Let_def round_ties_even_nonneg)

text \<open>Rounding moves a number by at most half a unit in the last place.\<close>

lemma to_double_error: "\<bar>to_double x - x\<bar> \<le> \<bar>x\<bar> / 2 ^ 53"
proof (cases "x = 0")
  case True
  then show ?thesis by (simp add: to_double_0)
next
  case False
  define e where "e = \<lfloor>log 2 \<bar>x\<bar>\<rfloor>"
  define u :: real where "u = 2 powr (of_int e - 52)"
  have upos: "0 < u" by (simp add: u_def)
  have xpos: "0 < \<bar>x\<bar>" using False by simp
  have e: "2 powr (of_int e) \<le> \<bar>x\<bar>"
    using xpos floor_log_eq_powr_iff [of "\<bar>x\<bar>" 2 e] by (simp add: e_def)
  have tdx: "to_double x = of_int (round_ties_even (x / u)) * u"
    using False by (simp add: to_double_def Let_def e_def u_def)
  have "\<bar>of_int (round_ties_even (x / u)) - x / u\<bar> \<le> 1 / 2"
    using round_ties_even_bounds [of "x / u"] by linarith
  then have "\<bar>of_int (round_ties_even (x / u)) - x / u\<bar> * u \<le> 1 / 2 * u"
    using upos by (simp add: mult_right_mono)
  moreover have "\<bar>of_int (round_ties_even (x / u)) - x / u\<bar> * u = \<bar>to_double x - x\<bar>"
  proof -
    have "(of_int (round_ties_even (x / u)) - x / u) * u = to_double x - x"
      using upos by (simp add: tdx algebra_simps)
    then show ?thesis
      using upos by (metis abs_mult abs_of_pos)
  qed
  moreover have "1 / 2 * u = 2 powr (of_int e) / 2 ^ 53"
  proof -
    have "u = 2 powr (of_int e) / 2 powr 52"
      by (simp add: u_def powr_diff)
    then show ?thesis by simp
  qed
  ultimately have "\<bar>to_double x - x\<bar> \<le> 2 powr (of_int e) / 2 ^ 53"
    by simp
  also have "\<dots> \<le> \<bar>x\<bar> / 2 ^ 53"
    using e by (simp add: divide_right_mono)
  finally show ?thesis .
qed

text \<open>A double is zero or a 53-bit significand times a power of two.\<close>

lemma to_double_normal_form:
  assumes "to_double y \<noteq> 0"
  shows "\<exists>n j. to_double y = of_int n * 2 powr (of_int j) \<and> 2 ^ 52 \<le> \<bar>n\<bar> \<and> \<bar>n\<bar> < 2 ^ 53"
proof -
  have y: "y \<noteq> 0"
    using assms by (auto simp: to_double_0)
  define e where "e = \<lfloor>log 2 \<bar>y\<bar>\<rfloor>"
  define u :: real where "u = 2 powr (of_int e - 52)"
  define r where "r = round_ties_even (y / u)"
  have upos: "0 < u" by (simp add: u_def)
  have ypos: "0 < \<bar>y\<bar>" using y by simp
  have e: "2 powr (of_int e) \<le> \<bar>y\<bar>" "\<bar>y\<bar> < 2 powr (of_int e + 1)"
    using ypos floor_log_eq_powr_iff [of "\<bar>y\<bar>" 2 e] by (simp_all add: e_def)
  have td: "to_double y = of_int r * u"
    using y by (simp add: to_double_def Let_def e_def u_def r_def)
  have q1: "2 ^ 52 \<le> \<bar>y / u\<bar>"
  proof -
    have "2 powr (of_int e) / u = 2 ^ 52"
      by (simp add: u_def powr_diff [symmetric])
    moreover have "2 powr (of_int e) / u \<le> \<bar>y\<bar> / u"
      using e(1) upos by (simp add: divide_right_mono)
    ultimately show ?thesis using upos by simp
  qed
  have q2: "\<bar>y / u\<bar> < 2 ^ 53"
  proof -
    have "2 powr (of_int e + 1) / u = 2 ^ 53"
      by (simp add: u_def powr_diff [symmetric])
    moreover have "\<bar>y\<bar> / u < 2 powr (of_int e + 1) / u"
      using e(2) upos by (simp add: divide_strict_right_mono)
    ultimately show ?thesis using upos by simp
  qed
  have b: "of_int r \<le> y / u + 1 / 2" "y / u - 1 / 2 \<le> of_int r"
    using round_ties_even_bounds [of "y / u"] by (simp_all add: r_def)
  have r1: "2 ^ 52 \<le> \<bar>r\<bar>"
  proof (cases "0 \<le> y / u")
    case True
    then have "real_of_int (2 ^ 52 - 1) < real_of_int r"
      using q1 b by simp
    then have "2 ^ 52 - 1 < r"
      by (simp only: of_int_less_iff)
    then show ?thesis by simp
  next
    case False
    then have "real_of_int r < real_of_int (- (2 ^ 52) + 1)"
      using q1 b by simp
    then have "r < - (2 ^ 52) + 1"
      by (simp only: of_int_less_iff)
    then show ?thesis by simp
  qed
  have r2: "\<bar>r\<bar> \<le> 2 ^ 53"
  proof -
    have "y / u < 2 ^ 53" "- (2 ^ 53) < y / u"
      using q2 by linarith+
    then have "real_of_int r < 2 ^ 53 + 1" "- (2 ^ 53) - 1 < real_of_int r"
      using b by linarith+
    then have "real_of_int r < real_of_int (2 ^ 53 + 1)"
      "real_of_int (- (2 ^ 53) - 1) < real_of_int r"
      by simp_all
    then have "r < 2 ^ 53 + 1" "- (2 ^ 53) - 1 < r"
      by (simp_all only: of_int_less_iff)
    then show ?thesis by simp
  qed
  show ?thesis
  proof (cases "\<bar>r\<bar> < 2 ^ 53")
    case True
    have eq: "to_double y = of_int r * 2 powr (of_int (e - 52))"
      by (simp add: td u_def)
    show ?thesis
      by (intro exI [of _ r] exI [of _ "e - 52"] conjI) (rule eq, rule r1, rule True)
  next
    case False
    then have "\<bar>r\<bar> = 2 ^ 53" using r2 by simp
    then consider "r = 2 ^ 53" | "r = - (2 ^ 53)" by linarith
    then show ?thesis
    proof cases
      case 1
      have "of_int r * u = of_int (2 ^ 52) * 2 powr (of_int (e - 51))"
        by (simp add: 1 u_def powr_diff field_simps)
      then have eq: "to_double y = of_int (2 ^ 52) * 2 powr (of_int (e - 51))"
        by (simp only: td)
      show ?thesis
        by (intro exI [of _ "2 ^ 52"] exI [of _ "e - 51"] conjI) (rule eq, simp, simp)
    next
      case 2
      have "of_int r * u = of_int (- (2 ^ 52)) * 2 powr (of_int (e - 51))"
        by (simp add: 2 u_def powr_diff field_simps)
      then have eq: "to_double y = of_int (- (2 ^ 52)) * 2 powr (of_int (e - 51))"
        by (simp only: td)
      show ?thesis
        by (intro exI [of _ "- (2 ^ 52)"] exI [of _ "e - 51"] conjI) (rule eq, simp, simp)
    qed
  qed
qed


text \<open>
  A double at or above \<open>2^54\<close> is a multiple of 4, so a whole number of cents that ends
  in 50 is below \<open>2^54\<close>.
\<close>

lemma round_double_cents:
  assumes m: "round (to_double y) mod 100 = 50"
  shows "round (to_double y) < 2 ^ 54"
proof (rule ccontr)
  define x where "x = to_double y"
  define c where "c = round x"
  assume "\<not> round (to_double y) < 2 ^ 54"
  then have cge: "2 ^ 54 \<le> c"
    by (simp add: c_def x_def)
  have "real_of_int c \<le> x + 1 / 2"
    by (simp add: c_def round_def)
  moreover have "real_of_int (2 ^ 54) \<le> real_of_int c"
    using cge by (simp only: of_int_le_iff)
  ultimately have xge: "2 ^ 54 - 1 / 2 \<le> x"
    by simp
  then have "x \<noteq> 0"
    by auto
  then obtain n j where nf: "x = of_int n * 2 powr (of_int j)"
    and n1: "2 ^ 52 \<le> \<bar>n\<bar>" and n2: "\<bar>n\<bar> < 2 ^ 53"
    using to_double_normal_form [of y] unfolding x_def by blast
  have xpos: "0 < x"
  proof -
    have "(0::real) < 2 ^ 54 - 1 / 2" by simp
    then show ?thesis using xge by linarith
  qed
  have npos: "0 < n"
  proof (rule ccontr)
    assume "\<not> 0 < n"
    then have "real_of_int n \<le> 0" by simp
    then have "x \<le> 0"
      unfolding nf by (simp add: mult_nonpos_nonneg)
    then show False using xpos by simp
  qed
  have nle: "real_of_int n \<le> 2 ^ 53 - 1"
  proof -
    have "n \<le> 2 ^ 53 - 1" using n2 by simp
    then have "real_of_int n \<le> real_of_int (2 ^ 53 - 1)"
      by (simp only: of_int_le_iff)
    then show ?thesis by simp
  qed
  have j2: "2 \<le> j"
  proof (rule ccontr)
    assume "\<not> 2 \<le> j"
    then have "of_int j \<le> (1::real)" by simp
    then have "2 powr (of_int j) \<le> (2::real) powr 1"
      by (simp only: powr_le_cancel_iff)
    then have p: "2 powr (of_int j) \<le> (2::real)" by simp
    have "x \<le> real_of_int n * 2"
      unfolding nf using p npos by (simp add: mult_left_mono)
    then have "x \<le> 2 ^ 54 - 2"
      using nle by simp
    then show False using xge by simp
  qed
  define k where "k = nat (j - 2)"
  have jk: "of_int j = real (k + 2)"
    using j2 by (simp add: k_def)
  have "x = of_int n * 2 ^ (k + 2)"
    unfolding nf jk by (simp only: powr_realpow) 
  also have "\<dots> = of_int (4 * (n * 2 ^ k))"
    by simp
  finally have "c = 4 * (n * 2 ^ k)"
    by (simp only: c_def round_of_int)
  then have "c mod 4 = 0"
    by simp
  moreover have "c mod 100 = 50"
    using m by (simp add: c_def x_def)
  ultimately show False
    by presburger
qed

lemma cents_minus_fifty_exact:
  assumes x0: "0 \<le> to_double y" and m: "round (to_double y) mod 100 = 50"
  shows "to_double (real_of_int (round (to_double y)) - 50)
           = real_of_int (round (to_double y)) - 50"
    and "to_double ((real_of_int (round (to_double y)) - 50) / 100)
           = real_of_int (round (to_double y) div 100)"
proof -
  define c where "c = round (to_double y)"
  have c0: "0 \<le> c"
    using x0 by (simp add: c_def round_def)
  have cle: "c < 2 ^ 54"
    unfolding c_def using m by (rule round_double_cents)
  have cm: "c mod 100 = 50"
    using m by (simp add: c_def)
  have dec: "c = 100 * (c div 100) + 50"
    using cm by presburger
  define h where "h = 50 * (c div 100)"
  have h: "c - 50 = 2 * h" "\<bar>h\<bar> < 2 ^ 53"
    using dec c0 cle by (simp_all add: h_def)
  have "to_double (of_int h * 2 powr (of_int 1)) = of_int h * 2 powr (of_int 1)"
    using h(2) by (rule to_double_representable)
  moreover have "real_of_int c - 50 = of_int h * 2 powr (of_int 1)"
  proof -
    have "real_of_int (c - 50) = real_of_int (2 * h)"
      using h(1) by simp
    then show ?thesis by simp
  qed
  ultimately show "to_double (real_of_int c - 50) = real_of_int c - 50"
    by simp
  have "real_of_int c = 100 * real_of_int (c div 100) + 50"
    using dec by (metis of_int_add of_int_mult of_int_numeral)
  then have d: "(real_of_int c - 50) / 100 = real_of_int (c div 100)"
    by simp
  have "\<bar>c div 100\<bar> < 2 ^ 53"
    using c0 cle by simp
  then have "to_double (real_of_int (c div 100)) = real_of_int (c div 100)"
    by (rule to_double_of_int)
  then show "to_double ((real_of_int c - 50) / 100) = real_of_int (c div 100)"
    by (simp only: d)
qed

text \<open>
  The doubles of the decimal literals 0.001 and 14.99, the double 14.99 plus 2, and the
  difference of that sum and the double 14.99.
\<close>

lemma to_double_thousandth:
  "to_double (1 / 1000) = 1152921504606847 / 1152921504606846976"
  using to_double_binade [of "-10" "1 / 1000"]
  by (simp add: powr_minus round_ties_even_def Let_def)

lemma to_double_14_99: "to_double (1499 / 100) = 8438619801785467 / 562949953421312"
  using to_double_binade [of 3 "1499 / 100"]
  by (simp add: powr_minus round_ties_even_def Let_def)

lemma to_double_14_99_plus_2:
  "to_double (9564519708628091 / 562949953421312) = 2391129927157023 / 140737488355328"
  using to_double_binade [of 4 "9564519708628091 / 562949953421312"]
  by (simp add: powr_minus round_ties_even_def Let_def)

lemma to_double_16_99_minus_14_99:
  "to_double (1125899906842625 / 562949953421312) = 1125899906842625 / 562949953421312"
  using to_double_binade [of 1 "1125899906842625 / 562949953421312"]
  by (simp add: powr_minus round_ties_even_def Let_def)

lemmas double_simps =
  js_add_def js_sub_def js_mul_def js_div_def
  to_double_0 to_double_1 to_double_half to_double_numeral to_double_neg_numeral
  to_double_half_numeral to_double_thousandth

section \<open>Reading numbers\<close>

lemma two_powr_small: "(2::real) powr (- 1022) \<le> 1"
proof -
  have "(2::real) powr (- 1022) \<le> 2 powr 0"
    by (rule powr_mono) simp_all
  then show ?thesis by simp
qed

lemma Number_value_normal:
  assumes "2 powr (- 1022) \<le> \<bar>x\<bar>" "\<bar>to_double x\<bar> < 2 ^ 1024"
  shows "Number_value x = Finite (to_double x)"
  using assms by (simp add: Number_value_def)

lemma Number_value_of_int:
  assumes "\<bar>n\<bar> < 2 ^ 53"
  shows "Number_value (of_int n) = Finite (of_int n)"
proof (cases "n = 0")
  case True
  then show ?thesis
    by (simp add: Number_value_def round_ties_even_def)
next
  case False
  then have "1 \<le> \<bar>n\<bar>"
    by simp
  then have "real_of_int 1 \<le> real_of_int \<bar>n\<bar>"
    by (simp only: of_int_le_iff)
  then have "1 \<le> \<bar>real_of_int n\<bar>"
    by simp
  then have a: "2 powr (- 1022) \<le> \<bar>real_of_int n\<bar>"
    using two_powr_small by linarith
  have td: "to_double (of_int n) = of_int n"
    using assms by (rule to_double_of_int)
  have "\<bar>real_of_int n\<bar> < 2 ^ 53"
    using assms by (metis of_int_abs of_int_less_numeral_power_cancel_iff)
  also have "\<dots> < (2::real) ^ 1024"
    by simp
  finally have b: "\<bar>to_double (of_int n)\<bar> < 2 ^ 1024"
    by (simp add: td)
  show ?thesis
    using Number_value_normal [OF a b] by (simp add: td)
qed

lemma Number_value_of_nat:
  assumes "n < 2 ^ 53"
  shows "Number_value (real n) = Finite (real n)"
  using Number_value_of_int [of "int n"] assms by simp

lemma Number_value_numeral:
  "numeral n < (2::int) ^ 53 \<Longrightarrow> Number_value (numeral n) = Finite (numeral n)"
  using Number_value_of_int [of "numeral n"] by simp

text \<open>A number from \<open>2^1025\<close> on is beyond the largest double, as the literal \<open>1e309\<close> is.\<close>

lemma to_double_ge_half:
  assumes "2 * y \<le> x" "0 \<le> y"
  shows "y \<le> to_double x"
proof -
  have x0: "0 \<le> x"
    using assms by linarith
  define e where "e = x / 2 ^ 53"
  have "\<bar>to_double x - x\<bar> \<le> \<bar>x\<bar> / 2 ^ 53"
    by (rule to_double_error)
  then have "\<bar>to_double x - x\<bar> \<le> e"
    using x0 by (simp only: e_def abs_of_nonneg)
  then have a: "x - e \<le> to_double x"
    by linarith
  have "x / 2 ^ 53 \<le> x / 2"
    using x0 by (intro divide_left_mono) simp_all
  then have "e \<le> x / 2"
    by (simp only: e_def)
  then show ?thesis
    using a assms by linarith
qed

lemma Number_value_overflow:
  assumes "2 ^ 1025 \<le> x"
  shows "Number_value x = PosInfinity"
proof -
  have "2 ^ 1024 \<le> to_double x"
    by (rule to_double_ge_half) (use assms in simp_all)
  then have a: "2 ^ 1024 \<le> \<bar>to_double x\<bar>"
    by linarith
  have "(1::real) \<le> 2 ^ 1025"
    by (rule one_le_power) simp
  then have x1: "1 \<le> x"
    using assms by linarith
  then have b: "\<not> \<bar>x\<bar> < 2 powr (- 1022)"
    using two_powr_small by linarith
  have c: "0 < x"
    using x1 by linarith
  show ?thesis
    using a b c by (simp add: Number_value_def)
qed

lemma Number_value_1e309: "Number_value (10 ^ 309) = PosInfinity"
  by (rule Number_value_overflow) simp

lemma trim_start_no_space:
  assumes "\<not> is_white_space [a]" "a \<notin> {CHR 0xC2, CHR 0xE1, CHR 0xE2, CHR 0xE3, CHR 0xEF}"
  shows "trim_start (a # s) = a # s"
proof (cases s)
  case Nil
  then show ?thesis using assms by simp
next
  case (Cons b s')
  show ?thesis
  proof (cases s')
    case Nil
    then show ?thesis using assms Cons by (simp add: is_white_space_def)
  next
    case (Cons c s'')
    then show ?thesis using assms \<open>s = b # s'\<close> by (simp add: is_white_space_def)
  qed
qed

lemma trim_start_digit: "is_digit d \<Longrightarrow> trim_start (d # s) = d # s"
  by (rule trim_start_no_space) (auto simp: is_digit_def is_white_space_def)

text \<open>
  Text that starts with decimal digits, followed by text that does not continue the
  literal, reads as the number of the digits.
\<close>

lemma parseFloat_string_digits:
  assumes ne: "ds \<noteq> []" and dg: "list_all is_digit ds" and t: "ends_literal t"
  shows "parseFloat_string (ds @ t) = Number_value (real (digits_value ds))"
proof -
  obtain d ds' where ds: "ds = d # ds'"
    using ne by (cases ds) auto
  have d: "is_digit d"
    using dg ds by simp
  have all: "\<forall>c\<in>set ds. is_digit c"
    using dg by (simp add: list_all_iff)
  have tr: "trim_start (ds @ t) = ds @ t"
    using trim_start_digit [OF d] by (simp add: ds)
  have sg: "split_sign (ds @ t) = (1, ds @ t)"
    using d by (auto simp: split_sign_def ds is_digit_def)
  have inf: "take 8 ds @ take (8 - length ds) t \<noteq> ''Infinity''"
    using d by (auto simp: ds is_digit_def)
  have nil: "digits_value [] = 0"
    by (simp add: digits_value_def)
  have tw0: "takeWhile is_digit t = []" and dw0: "dropWhile is_digit t = t"
    using t by (cases t; simp add: ends_literal_def is_digit_def)+
  have tw: "takeWhile is_digit (ds @ t) = ds"
    using all by (simp add: takeWhile_append2 tw0)
  have dw: "dropWhile is_digit (ds @ t) = t"
    using all by (simp add: dropWhile_append2 dw0)
  have dot: "\<not> (t \<noteq> [] \<and> hd t = CHR ''.'')"
    using t by (cases t) (simp_all add: ends_literal_def)
  have ex: "exponent_part t = 0"
    using t by (cases t) (auto simp: exponent_part_def ends_literal_def)
  show ?thesis
    using ne by (simp add: parseFloat_string_def tr sg inf nil tw dw dot ex pow10_def Let_def)
qed

lemma parseFloat_raises:
  "ToString_raises v \<Longrightarrow> parseFloat v = Inl TypeError"
  by (induction v rule: parseFloat.induct) (simp_all split: if_splits)

lemma parseFloat_returns:
  "\<not> ToString_raises v \<Longrightarrow> \<exists>n. parseFloat v = Inr n"
  by (induction v rule: parseFloat.induct) (simp_all split: if_splits)

section \<open>Evaluation lemmas\<close>

lemmas baseline_defs =
  baseline_lookup_def or_null_def BASELINE_PRICING_def buildBaselinePricing_def
  mains_def sides_def portionOptions_def kabob_options_def item_entry_def option_entry_def
  computeInlineBasePrice_def single_piece_sides_def Math_round_def js_rem_def Let_def
  double_simps

lemmas parseFloat_defs =
  readNumber_def parseFloat_string_def split_sign_def is_white_space_def is_digit_def
  digits_value_def digit_value_def exponent_part_def pow10_def Number_value_numeral

lemmas cart_defs =
  add_wings_def chicken_wings_def two_wings_def three_wings_def
  addToCart_def getCurrentOrderType_def getEffectivePricingForItem_def
  getEffectivePrices_def effective_of_def empty_overrides_def same_line_def
  sauceEligibleIds_def freeSideEligibleIds_def freeSideChoices_def

lemma getEffectivePrices_lookup:
  "getEffectivePrices i pk ov =
     (case baseline_lookup i pk of
        None \<Rightarrow> Inr None
      | Some b \<Rightarrow>
          (case readNumber (override_lookup ov i pk) of
             Inl err \<Rightarrow> Inl err
           | Inr r \<Rightarrow> Inr (Some (effective_of b r))))"
  by (simp add: getEffectivePrices_def baseline_lookup_def override_lookup_def
      split: option.splits)

lemma override_lookup_or_null: "override_lookup ov i (or_null pk) = override_lookup ov i pk"
  by (simp add: override_lookup_def or_null_def split: option.splits)

lemma getEffectivePrices_returns:
  assumes "\<not> ToString_raises (override_lookup ov i pk)"
  shows "\<exists>r. getEffectivePrices i pk ov = Inr r"
proof -
  obtain n where "parseFloat (override_lookup ov i pk) = Inr n"
    using parseFloat_returns [OF assms] by blast
  then show ?thesis
    by (simp add: getEffectivePrices_lookup readNumber_def split: option.splits number.splits)
qed

lemma getEffectivePricingForItem_returns:
  assumes "\<not> ToString_raises (override_lookup ov (itemId item) pk)"
  shows "\<exists>pr. getEffectivePricingForItem ov item pk = Inr pr"
proof -
  obtain r where "getEffectivePrices (itemId item) pk ov = Inr r"
    using getEffectivePrices_returns [OF assms] by blast
  then show ?thesis
    by (cases r) (simp_all add: getEffectivePricingForItem_def)
qed

lemma effective_inline_parseFloat:
  assumes "baseline_lookup i pk = Some b"
  shows "effective_inline i pk ov =
     (case parseFloat (override_lookup ov i pk) of
        Inl err \<Rightarrow> Inl err
      | Inr (Finite v) \<Rightarrow> Inr (Some v)
      | Inr n \<Rightarrow> Inr (Some (baseInline b)))"
  using assms
  by (simp add: effective_inline_def getEffectivePrices_lookup readNumber_def effective_of_def
      Let_def split: sum.splits number.splits)

lemma baseline_three_wings:
  "baseline_lookup ''chicken_wings'' (Some ''3_wings'') =
     Some \<lparr>baseInline = 13, baseOnline = 15, baseMarkup = 2\<rparr>"
  by (simp add: baseline_defs)

lemma baseline_beef_patties:
  "baseline_lookup ''beef_patties'' None =
     Some \<lparr>baseInline = 3, baseOnline = 7 / 2, baseMarkup = 1 / 2\<rparr>"
  by (simp add: baseline_defs)

lemma baseline_beef_ribs:
  "baseline_lookup ''beef_ribs'' None =
     Some \<lparr>baseInline = 15, baseOnline = 16, baseMarkup = 1\<rparr>"
  by (simp add: baseline_defs)

lemma add_three_wings_once:
  "add_wings three_wings [] =
     [\<lparr>itemId = ''chicken_wings'',
       name = ''Chicken Wings'' @ [CHR '' '', CHR 0xE2, CHR 0x80, CHR 0x93, CHR '' ''] @ ''3 wings'',
       price = 15, quantity = 1, baseOnlinePrice = 15, baseInlinePrice = Some 13,
       plateOptionKey = Some ''3_wings'', plateOptionLabel = Some ''3 wings'',
       sauce = Some ''none'', freeSide = Some ''jollof_rice''\<rparr>]"
  by (simp add: cart_defs baseline_defs parseFloat_defs)

lemma add_three_wings_twice:
  "add_wings three_wings (add_wings three_wings []) =
     [\<lparr>itemId = ''chicken_wings'',
       name = ''Chicken Wings'' @ [CHR '' '', CHR 0xE2, CHR 0x80, CHR 0x93, CHR '' ''] @ ''3 wings'',
       price = 15, quantity = 2, baseOnlinePrice = 15, baseInlinePrice = Some 13,
       plateOptionKey = Some ''3_wings'', plateOptionLabel = Some ''3 wings'',
       sauce = Some ''none'', freeSide = Some ''jollof_rice''\<rparr>]"
  unfolding add_three_wings_once
  by (simp add: cart_defs baseline_defs parseFloat_defs)

lemma add_two_then_three_wings:
  "add_wings three_wings (add_wings two_wings []) =
     [\<lparr>itemId = ''chicken_wings'',
       name = ''Chicken Wings'' @ [CHR '' '', CHR 0xE2, CHR 0x80, CHR 0x93, CHR '' ''] @ ''2 wings'',
       price = 11, quantity = 1, baseOnlinePrice = 11, baseInlinePrice = Some 10,
       plateOptionKey = Some ''2_wings'', plateOptionLabel = Some ''2 wings'',
       sauce = Some ''none'', freeSide = Some ''jollof_rice''\<rparr>,
      \<lparr>itemId = ''chicken_wings'',
       name = ''Chicken Wings'' @ [CHR '' '', CHR 0xE2, CHR 0x80, CHR 0x93, CHR '' ''] @ ''3 wings'',
       price = 15, quantity = 1, baseOnlinePrice = 15, baseInlinePrice = Some 13,
       plateOptionKey = Some ''3_wings'', plateOptionLabel = Some ''3 wings'',
       sauce = Some ''none'', freeSide = Some ''jollof_rice''\<rparr>]"
  by (simp add: cart_defs baseline_defs parseFloat_defs)

text \<open>
  In every entry of the baseline table the markup is the online price minus the inline
  price, and adding it back to the inline price gives the online price, without rounding.
\<close>

lemma baseline_items_exact:
  assumes "items BASELINE_PRICING i = Some b"
  shows "baseMarkup b = baseOnline b - baseInline b
         \<and> js_add (baseInline b) (baseMarkup b) = baseOnline b"
  using assms
  by (auto simp: BASELINE_PRICING_def buildBaselinePricing_def mains_def sides_def
      item_entry_def computeInlineBasePrice_def single_piece_sides_def Math_round_def
      js_rem_def Let_def double_simps split: if_splits)

lemma baseline_portions_exact:
  assumes "portions BASELINE_PRICING i = Some pm" "pm k = Some b"
  shows "baseMarkup b = baseOnline b - baseInline b
         \<and> js_add (baseInline b) (baseMarkup b) = baseOnline b"
  using assms
  by (auto simp: BASELINE_PRICING_def buildBaselinePricing_def portionOptions_def
      kabob_options_def option_entry_def Let_def double_simps split: if_splits)

lemma baseline_exact:
  assumes "baseline_lookup i pk = Some b"
  shows "baseMarkup b = baseOnline b - baseInline b
         \<and> js_add (baseInline b) (baseMarkup b) = baseOnline b"
proof (cases "or_null pk")
  case None
  then have "items BASELINE_PRICING i = Some b"
    using assms by (simp add: baseline_lookup_def)
  then show ?thesis
    by (rule baseline_items_exact)
next
  case (Some k)
  then obtain pm where "portions BASELINE_PRICING i = Some pm" "pm k = Some b"
    using assms by (auto simp: baseline_lookup_def split: Option.bind_splits)
  then show ?thesis
    by (rule baseline_portions_exact)
qed

section \<open>Cart lemmas\<close>

lemma findIndex_append_None:
  "findIndex P xs = None \<Longrightarrow> findIndex P (xs @ [x]) = (if P x then Some (length xs) else None)"
  by (induction xs) (auto split: if_splits)

lemma findIndex_Some:
  "findIndex P xs = Some n \<Longrightarrow> n < length xs \<and> P (xs ! n)"
  by (induction xs arbitrary: n) (auto split: if_splits)

lemma findIndex_update:
  "findIndex P xs = Some n \<Longrightarrow> P l \<Longrightarrow> findIndex P (xs[n := l]) = Some n"
  by (induction xs arbitrary: n) (auto split: if_splits)

lemma or_null_Some_eq: "or_null (Some k1) = or_null (Some k2) \<Longrightarrow> k1 = k2"
  by (auto simp: or_null_def split: if_splits)

lemma or_null_idem: "or_null (or_null k) = or_null k"
  by (simp add: or_null_def split: option.splits)

lemma addToCart_closed: "addToCart True checked ov item po cart = Inr cart"
  by (simp add: addToCart_def)

lemma addToCart_raises:
  assumes "getEffectivePricingForItem ov item (or_null (map_option key po)) = Inl err"
  shows "addToCart False checked ov item po cart = Inl err"
  using assms by (simp add: addToCart_def)

lemma addToCart_new:
  assumes r: "\<not> ToString_raises (override_lookup ov (itemId item) (map_option key po))"
    and n: "findIndex (same_line (itemId item) (map_option key po)) cart = None"
  shows "\<exists>l. addToCart False checked ov item po cart = Inr (cart @ [l])
      \<and> itemId l = itemId item
      \<and> plateOptionKey l = or_null (map_option key po) \<and> quantity l = 1"
proof -
  have "\<not> ToString_raises
          (override_lookup ov (itemId item) (or_null (map_option key po)))"
    using r by (simp add: override_lookup_or_null)
  then obtain pr where
    "getEffectivePricingForItem ov item (or_null (map_option key po)) = Inr pr"
    using getEffectivePricingForItem_returns by blast
  then show ?thesis
    using n by (simp add: addToCart_def Let_def)
qed

lemma addToCart_existing:
  assumes r: "\<not> ToString_raises (override_lookup ov (itemId item) (map_option key po))"
    and n: "findIndex (same_line (itemId item) (map_option key po)) cart = Some idx"
  shows "\<exists>l. addToCart False checked ov item po cart = Inr (cart[idx := l])
      \<and> itemId l = itemId (cart ! idx)
      \<and> plateOptionKey l = plateOptionKey (cart ! idx)
      \<and> quantity l = quantity (cart ! idx) + 1"
proof -
  have "\<not> ToString_raises
          (override_lookup ov (itemId item) (or_null (map_option key po)))"
    using r by (simp add: override_lookup_or_null)
  then obtain pr where
    pr: "getEffectivePricingForItem ov item (or_null (map_option key po)) = Inr pr"
    using getEffectivePricingForItem_returns by blast
  show ?thesis
    apply (simp add: addToCart_def Let_def n pr split del: if_split)
    apply (rule exI)
    apply (rule conjI)
     apply (rule refl)
    apply simp
    done
qed

text \<open>
  One add, on any cart: it writes one line, which carries the item id and the portion
  key, and leaves every other line as it was. The line it writes is a new last line, or
  a line that carried the item id and the key before.
\<close>

lemma addToCart_line:
  assumes r: "\<not> ToString_raises (override_lookup ov (itemId item) (map_option key po))"
  shows "\<exists>c n. addToCart False checked ov item po cart = Inr c
      \<and> n < length c \<and> length cart \<le> length c
      \<and> same_line (itemId item) (map_option key po) (c ! n)
      \<and> (n < length cart \<longrightarrow> same_line (itemId item) (map_option key po) (cart ! n))
      \<and> (\<forall>m. m < length c \<and> m \<noteq> n \<longrightarrow> m < length cart \<and> c ! m = cart ! m)"
proof (cases "findIndex (same_line (itemId item) (map_option key po)) cart")
  case None
  from addToCart_new [OF r None, of checked] obtain l where
    l: "addToCart False checked ov item po cart = Inr (cart @ [l])" "itemId l = itemId item"
      "plateOptionKey l = or_null (map_option key po)" "quantity l = 1" by blast
  have s: "same_line (itemId item) (map_option key po) l"
    using l by (simp add: same_line_def or_null_idem)
  show ?thesis
    by (intro exI [of _ "cart @ [l]"] exI [of _ "length cart"])
      (auto simp: l s nth_append)
next
  case (Some idx)
  from addToCart_existing [OF r Some, of checked] obtain l where
    l: "addToCart False checked ov item po cart = Inr (cart[idx := l])"
      "itemId l = itemId (cart ! idx)" "plateOptionKey l = plateOptionKey (cart ! idx)"
      "quantity l = quantity (cart ! idx) + 1" by blast
  have i: "idx < length cart" "same_line (itemId item) (map_option key po) (cart ! idx)"
    using findIndex_Some [OF Some] by simp_all
  have s: "same_line (itemId item) (map_option key po) l"
    using i(2) l by (simp add: same_line_def)
  show ?thesis
    by (intro exI [of _ "cart[idx := l]"] exI [of _ idx]) (auto simp: l s i)
qed

text \<open>Two adds of one item with one portion key, on any cart.\<close>

lemma addToCart_twice:
  assumes r: "\<not> ToString_raises (override_lookup ov (itemId item) (map_option key po))"
  shows "\<exists>c1 c2. addToCart False checked ov item po cart = Inr c1
       \<and> addToCart False checked ov item po c1 = Inr c2
       \<and> (case findIndex (same_line (itemId item) (map_option key po)) cart of
            None \<Rightarrow>
              (\<exists>l. c2 = cart @ [l] \<and> itemId l = itemId item
                 \<and> plateOptionKey l = or_null (map_option key po) \<and> quantity l = 2)
          | Some idx \<Rightarrow>
              (\<exists>l. c2 = cart[idx := l] \<and> itemId l = itemId (cart ! idx)
                 \<and> plateOptionKey l = plateOptionKey (cart ! idx)
                 \<and> quantity l = quantity (cart ! idx) + 2))"
proof (cases "findIndex (same_line (itemId item) (map_option key po)) cart")
  case None
  let ?P = "same_line (itemId item) (map_option key po)"
  from addToCart_new [OF r None, of checked] obtain l where
    l: "addToCart False checked ov item po cart = Inr (cart @ [l])" "itemId l = itemId item"
      "plateOptionKey l = or_null (map_option key po)" "quantity l = 1" by blast
  have "?P l"
    using l by (simp add: same_line_def or_null_idem)
  then have "findIndex ?P (cart @ [l]) = Some (length cart)"
    using None by (simp add: findIndex_append_None)
  from addToCart_existing [OF r this, of checked] obtain l' where
    l': "addToCart False checked ov item po (cart @ [l]) = Inr ((cart @ [l])[length cart := l'])"
      "itemId l' = itemId ((cart @ [l]) ! length cart)"
      "plateOptionKey l' = plateOptionKey ((cart @ [l]) ! length cart)"
      "quantity l' = quantity ((cart @ [l]) ! length cart) + 1" by blast
  have "\<exists>l. (cart @ [l])[length cart := l'] = cart @ [l] \<and> itemId l = itemId item
          \<and> plateOptionKey l = or_null (map_option key po) \<and> quantity l = 2"
    using l l' by (intro exI [of _ l']) simp
  then show ?thesis
    using l(1) l'(1) None by (intro exI [of _ "cart @ [l]"] exI [of _ "(cart @ [l])[length cart := l']"]) simp
next
  case (Some idx)
  let ?P = "same_line (itemId item) (map_option key po)"
  from addToCart_existing [OF r Some, of checked] obtain l where
    l: "addToCart False checked ov item po cart = Inr (cart[idx := l])"
      "itemId l = itemId (cart ! idx)" "plateOptionKey l = plateOptionKey (cart ! idx)"
      "quantity l = quantity (cart ! idx) + 1" by blast
  have i: "idx < length cart" "?P (cart ! idx)"
    using findIndex_Some [OF Some] by simp_all
  have "?P l"
    using i(2) l by (simp add: same_line_def)
  then have "findIndex ?P (cart[idx := l]) = Some idx"
    using Some by (rule findIndex_update [rotated])
  from addToCart_existing [OF r this, of checked] obtain l' where
    l': "addToCart False checked ov item po (cart[idx := l]) = Inr (cart[idx := l, idx := l'])"
      "itemId l' = itemId (cart[idx := l] ! idx)"
      "plateOptionKey l' = plateOptionKey (cart[idx := l] ! idx)"
      "quantity l' = quantity (cart[idx := l] ! idx) + 1" by blast
  have "\<exists>l. cart[idx := l'] = cart[idx := l] \<and> itemId l = itemId (cart ! idx)
          \<and> plateOptionKey l = plateOptionKey (cart ! idx)
          \<and> quantity l = quantity (cart ! idx) + 2"
    using l l' i by (intro exI [of _ l']) simp
  then show ?thesis
    using l(1) l'(1) Some by (intro exI [of _ "cart[idx := l]"] exI [of _ "cart[idx := l']"]) simp
qed

text \<open>Two adds of one item with two different portion keys, on any cart.\<close>

lemma same_line_keys:
  assumes "key po1 \<noteq> key po2" "same_line i (Some (key po1)) l"
  shows "\<not> same_line i (Some (key po2)) l"
  using assms or_null_Some_eq [of "key po1" "key po2"] by (auto simp: same_line_def)

lemma addToCart_two_lines:
  assumes k: "key po1 \<noteq> key po2"
    and r1: "\<not> ToString_raises (override_lookup ov (itemId item) (Some (key po1)))"
    and r2: "\<not> ToString_raises (override_lookup ov (itemId item) (Some (key po2)))"
  shows "\<exists>c1 c2 n1 n2. addToCart False checked ov item (Some po1) cart = Inr c1
       \<and> addToCart False checked ov item (Some po2) c1 = Inr c2
       \<and> n1 < length c2 \<and> n2 < length c2 \<and> n1 \<noteq> n2
       \<and> same_line (itemId item) (Some (key po1)) (c2 ! n1)
       \<and> same_line (itemId item) (Some (key po2)) (c2 ! n2)"
proof -
  have r1': "\<not> ToString_raises (override_lookup ov (itemId item) (map_option key (Some po1)))"
    and r2': "\<not> ToString_raises (override_lookup ov (itemId item) (map_option key (Some po2)))"
    using r1 r2 by simp_all
  from addToCart_line [OF r1', of checked cart] obtain c1 n1 where
    c1: "addToCart False checked ov item (Some po1) cart = Inr c1" "n1 < length c1"
      "same_line (itemId item) (Some (key po1)) (c1 ! n1)"
    by auto
  from addToCart_line [OF r2', of checked c1] obtain c2 n2 where
    c2: "addToCart False checked ov item (Some po2) c1 = Inr c2" "n2 < length c2"
      "length c1 \<le> length c2"
      "same_line (itemId item) (Some (key po2)) (c2 ! n2)"
      "n2 < length c1 \<longrightarrow> same_line (itemId item) (Some (key po2)) (c1 ! n2)"
      "\<forall>m. m < length c2 \<and> m \<noteq> n2 \<longrightarrow> m < length c1 \<and> c2 ! m = c1 ! m"
    by auto
  have ne: "n1 \<noteq> n2"
    using c1(2,3) c2(5) same_line_keys [OF k] by blast
  have "n1 < length c2"
    using c1(2) c2(3) by linarith
  moreover from this have "c2 ! n1 = c1 ! n1"
    using c2(6) ne by blast
  ultimately show ?thesis
    using c1 c2 ne by (intro exI [of _ c1] exI [of _ c2] exI [of _ n1] exI [of _ n2]) simp
qed

lemma addToCart_two_keys:
  assumes k: "key po1 \<noteq> key po2"
    and r1: "\<not> ToString_raises (override_lookup ov (itemId item) (Some (key po1)))"
    and r2: "\<not> ToString_raises (override_lookup ov (itemId item) (Some (key po2)))"
    and n1: "findIndex (same_line (itemId item) (Some (key po1))) cart = None"
    and n2: "findIndex (same_line (itemId item) (Some (key po2))) cart = None"
  shows "\<exists>l1 l2. addToCart False checked ov item (Some po1) cart = Inr (cart @ [l1])
       \<and> addToCart False checked ov item (Some po2) (cart @ [l1]) = Inr (cart @ [l1, l2])
       \<and> itemId l1 = itemId item \<and> itemId l2 = itemId item
       \<and> plateOptionKey l1 = or_null (Some (key po1))
       \<and> plateOptionKey l2 = or_null (Some (key po2))
       \<and> plateOptionKey l1 \<noteq> plateOptionKey l2
       \<and> quantity l1 = 1 \<and> quantity l2 = 1"
proof -
  have r1': "\<not> ToString_raises (override_lookup ov (itemId item) (map_option key (Some po1)))"
    and r2': "\<not> ToString_raises (override_lookup ov (itemId item) (map_option key (Some po2)))"
    using r1 r2 by simp_all
  from addToCart_new [OF r1', of cart checked] n1 obtain l1 where
    l1: "addToCart False checked ov item (Some po1) cart = Inr (cart @ [l1])"
      "itemId l1 = itemId item"
      "plateOptionKey l1 = or_null (Some (key po1))" "quantity l1 = 1" by auto
  have ne: "or_null (Some (key po1)) \<noteq> or_null (Some (key po2))"
    using k or_null_Some_eq by blast
  then have "\<not> same_line (itemId item) (Some (key po2)) l1"
    using l1 by (simp add: same_line_def or_null_idem)
  then have "findIndex (same_line (itemId item) (map_option key (Some po2))) (cart @ [l1]) = None"
    using n2 by (simp add: findIndex_append_None)
  from addToCart_new [OF r2' this, of checked] obtain l2 where
    l2: "addToCart False checked ov item (Some po2) (cart @ [l1]) = Inr ((cart @ [l1]) @ [l2])"
      "itemId l2 = itemId item" "plateOptionKey l2 = or_null (map_option key (Some po2))"
      "quantity l2 = 1" by blast
  show ?thesis
    using l1 l2 ne by (intro exI [of _ l1] exI [of _ l2]) simp
qed

section \<open>Totals\<close>

text \<open>
  C1. The claim: the fees component of \<open>computeTotals\<close> is zero on the inline channel
  and ten percent of the subtotal on pickup and delivery, so a pickup cart with subtotal
  30 has fees 3.00. The code sets \<open>fees\<close> to zero and never changes it, although its own
  comment announces ten percent for pickup and delivery: the fees are zero for every cart
  and channel, and the cart of two portions of three wings on pickup has subtotal 30,
  fees 0 and grand total 30.
\<close>

theorem computeTotals_fees_always_zero:
  "fees (computeTotals cart checked deliveryFee' currentTipAmount) = 0
   \<and> computeTotals (add_wings three_wings (add_wings three_wings [])) (Some ''pickup'') 0 0
       = \<lparr>subtotal = 30, fees = 0, deliveryFee = 0, tip = 0, grand = 30\<rparr>"
proof
  show "fees (computeTotals cart checked deliveryFee' currentTipAmount) = 0"
    by (simp add: computeTotals_def Let_def)
  show "computeTotals (add_wings three_wings (add_wings three_wings [])) (Some ''pickup'') 0 0
          = \<lparr>subtotal = 30, fees = 0, deliveryFee = 0, tip = 0, grand = 30\<rparr>"
    unfolding add_three_wings_twice
    by (simp add: computeTotals_def getCurrentOrderType_def or_zero_def double_simps)
qed

text \<open>
  C4. For every cart and every supplied delivery fee and tip, \<open>computeTotals\<close> returns
  the supplied delivery fee and the supplied tip when the channel is delivery, and zero
  for both on every other channel.
\<close>

theorem computeTotals_delivery_only:
  "deliveryFee (computeTotals cart checked deliveryFee' currentTipAmount)
     = (if getCurrentOrderType checked = ''delivery'' then deliveryFee' else 0)
   \<and> tip (computeTotals cart checked deliveryFee' currentTipAmount)
     = (if getCurrentOrderType checked = ''delivery'' then currentTipAmount else 0)"
  by (simp add: computeTotals_def Let_def or_zero_def)

text \<open>
  C5. The grand total of every breakdown that \<open>computeTotals\<close> returns is the sum, as
  JavaScript adds them, of its own subtotal, fees, delivery fee and tip.
\<close>

theorem computeTotals_grand_is_sum:
  "grand (computeTotals cart checked deliveryFee' currentTipAmount)
     = js_add
         (js_add
            (js_add (subtotal (computeTotals cart checked deliveryFee' currentTipAmount))
               (fees (computeTotals cart checked deliveryFee' currentTipAmount)))
            (deliveryFee (computeTotals cart checked deliveryFee' currentTipAmount)))
         (tip (computeTotals cart checked deliveryFee' currentTipAmount))"
  by (simp add: computeTotals_def Let_def)

section \<open>Baseline derivation\<close>

text \<open>
  C6. For every online base price (an amount that is not negative) and item id,
  \<open>computeInlineBasePrice\<close> returns 3 for the four single-piece sides whatever the
  price; otherwise, when the price in cents, rounded to a whole number, has a cents part
  of exactly 50, it takes the whole dollars of the price; then a price whose distance to
  16, as JavaScript computes it, is below the double 0.001 becomes 15; any other price is
  returned unchanged.
\<close>

theorem computeInlineBasePrice_rule:
  assumes "0 \<le> p"
  shows "computeInlineBasePrice p i =
     (if i \<in> {''side_chicken_wing'', ''side_chicken_kabob'', ''side_beef_kabob'',
               ''side_shrimp_kabob''} then 3
      else let c = round (to_double (p * 100));
               q = (if c mod 100 = 50 then real_of_int (c div 100) else p)
           in if \<bar>to_double (q - 16)\<bar> < to_double (1 / 1000) then 15 else q)"
proof -
  define c where "c = round (to_double (p * 100))"
  have x0: "0 \<le> to_double (p * 100)"
    using assms by (simp add: to_double_nonneg)
  have r: "Math_round (js_mul p 100) = c"
    by (simp add: Math_round_def round_def js_mul_def c_def)
  have c0: "0 \<le> c"
    using x0 by (simp add: c_def round_def)
  have sub: "to_double (real_of_int c - 50) = real_of_int c - 50"
    and strip: "to_double ((real_of_int c - 50) / 100) = real_of_int (c div 100)"
    if "c mod 100 = 50"
    using that cents_minus_fifty_exact [OF x0] by (simp_all add: c_def)
  show ?thesis
    using c0
    by (simp add: computeInlineBasePrice_def single_piece_sides_def r js_rem_def
        js_sub_def js_div_def sub strip Let_def c_def [symmetric])
qed

theorem computeInlineBasePrice_rule_witness:
  "(0::real) \<le> 43 / 2
   \<and> computeInlineBasePrice (43 / 2) ''cassava_leaf'' = 21
   \<and> computeInlineBasePrice 16 ''beef_ribs'' = 15
   \<and> computeInlineBasePrice (33 / 2) ''plain_item'' = 15
   \<and> computeInlineBasePrice 11 ''chicken_wings'' = 11
   \<and> computeInlineBasePrice (7 / 2) ''side_chicken_wing'' = 3"
  using computeInlineBasePrice_rule [of "43 / 2" "''cassava_leaf''"]
    computeInlineBasePrice_rule [of 16 "''beef_ribs''"]
    computeInlineBasePrice_rule [of "33 / 2" "''plain_item''"]
    computeInlineBasePrice_rule [of 11 "''chicken_wings''"]
    computeInlineBasePrice_rule [of "7 / 2" "''side_chicken_wing''"]
  by (simp add: double_simps)

section \<open>Effective price resolver\<close>

text \<open>
  C2, as stated, fails, in two ways. The online price is the rounded sum of the inline
  price and the markup: with the override 14.99 for three chicken wings (baseline markup
  2) the resolver returns inline 14.99 and online 16.990000000000002, and their
  difference is 2.0000000000000018, not 2, both as JavaScript subtracts and exactly. And
  not every overrides map gives a result: on the stored entry \<open>{"toString": 1}\<close>
  \<open>parseFloat\<close> raises \<open>TypeError\<close>, and so does the resolver.
\<close>

theorem markup_rounding_counterexample:
  "map_option baseMarkup (baseline_lookup ''chicken_wings'' (Some ''3_wings'')) = Some 2
   \<and> getEffectivePrices ''chicken_wings'' (Some ''3_wings'')
        \<lparr>items = JObject [],
         portions = JObject [(''chicken_wings'',
                      JObject [(''3_wings'', JNumber (Finite (to_double (1499 / 100))))])]\<rparr>
       = Inr (Some \<lparr>inline = to_double (1499 / 100),
                     online = 2391129927157023 / 140737488355328, markup = 2\<rparr>)
   \<and> js_sub (2391129927157023 / 140737488355328) (to_double (1499 / 100))
       = 1125899906842625 / 562949953421312
   \<and> js_sub (2391129927157023 / 140737488355328) (to_double (1499 / 100)) \<noteq> 2
   \<and> 2391129927157023 / 140737488355328 - to_double (1499 / 100) \<noteq> 2
   \<and> getEffectivePrices ''chicken_wings'' (Some ''3_wings'')
        \<lparr>items = JObject [],
         portions = JObject [(''chicken_wings'',
                      JObject [(''3_wings'', JObject [(''toString'', JNumber (Finite 1))])])]\<rparr>
       = Inl TypeError"
  by (simp add: getEffectivePrices_lookup baseline_three_wings override_lookup_def
      or_null_def effective_of_def readNumber_def js_add_def js_sub_def to_double_14_99
      to_double_14_99_plus_2 to_double_16_99_minus_14_99)

text \<open>
  C2, amended. For every item, or item and portion, that has a baseline entry, and for
  every overrides document: when the override entry of that key cannot be converted to
  text (an object with an own \<open>toString\<close> property, or an array that holds one), the
  resolver raises \<open>TypeError\<close>. For every other overrides document the resolver
  returns; it reports the baseline markup of that entry, and its online price is the
  sum, as JavaScript adds them, of its inline price and that markup. So the online price
  minus the inline price is the markup up to one rounding (a relative error of at most
  \<open>2^-53\<close> of the sum), and exactly the markup whenever the sum needs no rounding, as
  it does when no override is read and the prices are those of the baseline entry.
\<close>

theorem getEffectivePrices_markup:
  assumes "baseline_lookup i pk = Some b"
  shows "(ToString_raises (override_lookup ov i pk)
            \<longrightarrow> getEffectivePrices i pk ov = Inl TypeError)
   \<and> (\<not> ToString_raises (override_lookup ov i pk)
        \<longrightarrow> (\<exists>p. getEffectivePrices i pk ov = Inr (Some p)
               \<and> markup p = baseMarkup b
               \<and> online p = js_add (inline p) (baseMarkup b)
               \<and> \<bar>online p - inline p - baseMarkup b\<bar> \<le> \<bar>inline p + baseMarkup b\<bar> / 2 ^ 53
               \<and> (to_double (inline p + baseMarkup b) = inline p + baseMarkup b
                    \<longrightarrow> online p - inline p = baseMarkup b)
               \<and> (readNumber (override_lookup ov i pk) = Inr None
                    \<longrightarrow> inline p = baseInline b \<and> online p = baseOnline b
                        \<and> online p - inline p = baseMarkup b)))"
proof (intro conjI impI)
  assume "ToString_raises (override_lookup ov i pk)"
  then have "parseFloat (override_lookup ov i pk) = Inl TypeError"
    by (rule parseFloat_raises)
  then show "getEffectivePrices i pk ov = Inl TypeError"
    using assms by (simp add: getEffectivePrices_lookup readNumber_def)
next
  assume "\<not> ToString_raises (override_lookup ov i pk)"
  then obtain n where "parseFloat (override_lookup ov i pk) = Inr n"
    using parseFloat_returns by blast
  then obtain r where r: "readNumber (override_lookup ov i pk) = Inr r"
    by (cases n) (simp_all add: readNumber_def)
  define p where "p = effective_of b r"
  have g: "getEffectivePrices i pk ov = Inr (Some p)"
    using assms r by (simp add: getEffectivePrices_lookup p_def)
  have m: "markup p = baseMarkup b"
    by (simp add: p_def effective_of_def Let_def)
  have on: "online p = js_add (inline p) (baseMarkup b)"
    by (simp add: p_def effective_of_def Let_def)
  have err: "\<bar>online p - inline p - baseMarkup b\<bar> \<le> \<bar>inline p + baseMarkup b\<bar> / 2 ^ 53"
  proof -
    have "online p - inline p - baseMarkup b
            = to_double (inline p + baseMarkup b) - (inline p + baseMarkup b)"
      by (simp add: on js_add_def)
    then show ?thesis
      by (simp only: to_double_error)
  qed
  have ex: "online p - inline p = baseMarkup b"
    if "to_double (inline p + baseMarkup b) = inline p + baseMarkup b"
    using that by (simp add: on js_add_def)
  have none: "inline p = baseInline b \<and> online p = baseOnline b
                \<and> online p - inline p = baseMarkup b"
    if "readNumber (override_lookup ov i pk) = Inr None"
  proof -
    have e1: "js_add (baseInline b) (baseMarkup b) = baseOnline b"
      by (rule baseline_exact [OF assms, THEN conjunct2])
    have e2: "baseOnline b - baseInline b = baseMarkup b"
      by (rule baseline_exact [OF assms, THEN conjunct1, symmetric])
    have "r = None"
      using that r by simp
    then show ?thesis
      by (simp add: p_def effective_of_def Let_def e1 e2)
  qed
  show "\<exists>p. getEffectivePrices i pk ov = Inr (Some p)
          \<and> markup p = baseMarkup b
          \<and> online p = js_add (inline p) (baseMarkup b)
          \<and> \<bar>online p - inline p - baseMarkup b\<bar> \<le> \<bar>inline p + baseMarkup b\<bar> / 2 ^ 53
          \<and> (to_double (inline p + baseMarkup b) = inline p + baseMarkup b
               \<longrightarrow> online p - inline p = baseMarkup b)
          \<and> (readNumber (override_lookup ov i pk) = Inr None
               \<longrightarrow> inline p = baseInline b \<and> online p = baseOnline b
                   \<and> online p - inline p = baseMarkup b)"
    by (intro exI [of _ p] conjI)
      (fact g, fact m, fact on, fact err, use ex in blast, use none in blast)
qed

theorem getEffectivePrices_markup_witness:
  "baseline_lookup ''chicken_wings'' (Some ''3_wings'')
     = Some \<lparr>baseInline = 13, baseOnline = 15, baseMarkup = 2\<rparr>
   \<and> (\<exists>p. getEffectivePrices ''chicken_wings'' (Some ''3_wings'')
             \<lparr>items = JObject [],
              portions = JObject [(''chicken_wings'',
                           JObject [(''3_wings'', JNumber (Finite 20))])]\<rparr> = Inr (Some p)
          \<and> inline p = 20 \<and> online p = 22 \<and> markup p = 2)
   \<and> getEffectivePrices ''chicken_wings'' (Some ''3_wings'')
        \<lparr>items = JObject [],
         portions = JObject [(''chicken_wings'',
                      JObject [(''3_wings'', JArray [JObject [(''toString'', JNull)]])])]\<rparr>
       = Inl TypeError"
proof -
  let ?ov = "\<lparr>items = JObject [],
              portions = JObject [(''chicken_wings'',
                           JObject [(''3_wings'', JNumber (Finite 20))])]\<rparr>"
  let ?bad = "\<lparr>items = JObject [],
               portions = JObject [(''chicken_wings'',
                      JObject [(''3_wings'', JArray [JObject [(''toString'', JNull)]])])]\<rparr>"
  note th = getEffectivePrices_markup [OF baseline_three_wings]
  have "\<exists>p. getEffectivePrices ''chicken_wings'' (Some ''3_wings'') ?ov = Inr (Some p)
          \<and> markup p = 2 \<and> online p = js_add (inline p) 2"
    using th [of ?ov, THEN conjunct2, rule_format]
    by (auto simp: override_lookup_def or_null_def)
  then obtain p where p: "getEffectivePrices ''chicken_wings'' (Some ''3_wings'') ?ov = Inr (Some p)"
    "markup p = 2" "online p = js_add (inline p) 2"
    by blast
  have "inline p = 20"
    using p(1)
    by (auto simp: getEffectivePrices_lookup baseline_three_wings override_lookup_def
        or_null_def effective_of_def readNumber_def)
  then have "online p = 22"
    using p(3) by (simp add: double_simps)
  then have a: "\<exists>p. getEffectivePrices ''chicken_wings'' (Some ''3_wings'') ?ov = Inr (Some p)
          \<and> inline p = 20 \<and> online p = 22 \<and> markup p = 2"
    using p \<open>inline p = 20\<close> by auto
  have b: "getEffectivePrices ''chicken_wings'' (Some ''3_wings'') ?bad = Inl TypeError"
    by (rule th [of ?bad, THEN conjunct1, rule_format])
      (simp add: override_lookup_def or_null_def)
  show ?thesis
    by (intro conjI) (fact baseline_three_wings, fact a, fact b)
qed

text \<open>
  C3, as stated, fails: an override that is not a number is not always ignored. The
  override \<open>"12abc"\<close> for the beef patties is text, yet the resolver does not fall back
  to the baseline inline price 3: \<open>parseFloat\<close> reads the leading 12 and the inline
  price becomes 12. The array \<open>[14, 9]\<close> is read as 14. And the object
  \<open>{"toString": 1}\<close> is not ignored either: the resolver raises \<open>TypeError\<close>.
\<close>

theorem override_text_counterexample:
  "\<not> is_finite_number (JString ''12abc'')
   \<and> override_lookup
        \<lparr>items = JObject [(''beef_patties'', JString ''12abc'')], portions = JObject []\<rparr>
        ''beef_patties'' None = JString ''12abc''
   \<and> map_option baseInline (baseline_lookup ''beef_patties'' None) = Some 3
   \<and> getEffectivePrices ''beef_patties'' None
        \<lparr>items = JObject [(''beef_patties'', JString ''12abc'')], portions = JObject []\<rparr>
       = Inr (Some \<lparr>inline = 12, online = 25 / 2, markup = 1 / 2\<rparr>)
   \<and> \<not> is_finite_number (JArray [JNumber (Finite 14), JNumber (Finite 9)])
   \<and> getEffectivePrices ''beef_patties'' None
        \<lparr>items = JObject [(''beef_patties'', JArray [JNumber (Finite 14), JNumber (Finite 9)])],
         portions = JObject []\<rparr>
       = Inr (Some \<lparr>inline = 14, online = 29 / 2, markup = 1 / 2\<rparr>)
   \<and> \<not> is_finite_number (JObject [(''toString'', JNumber (Finite 1))])
   \<and> getEffectivePrices ''beef_patties'' None
        \<lparr>items = JObject [(''beef_patties'', JObject [(''toString'', JNumber (Finite 1))])],
         portions = JObject []\<rparr>
       = Inl TypeError"
  by (simp add: getEffectivePrices_lookup baseline_beef_patties override_lookup_def
      or_null_def effective_of_def parseFloat_defs double_simps)

text \<open>
  C3, amended. For every item, or item and portion, with a baseline entry, the effective
  inline price is decided by what \<open>parseFloat\<close> makes of the override entry of that key:
  a finite number is the inline price, \<open>NaN\<close> or an infinity leaves the baseline inline
  price, and an error is raised by the resolver. So
  \<^item> an override that is a finite number is returned exactly;
  \<^item> an override that is absent, \<open>null\<close>, a boolean, \<open>NaN\<close>, an infinity, the empty
    string or the empty array is ignored, and so is an object without an own property
    \<open>toString\<close>;
  \<^item> an object with an own property \<open>toString\<close> makes the resolver raise \<open>TypeError\<close>;
  \<^item> a string of decimal digits, followed by any text that cannot continue the literal,
    is not ignored: the inline price is the number of the digits (below \<open>2^53\<close>, where
    every whole number is a double);
  \<^item> an array with a first element is read as that element is, and raises \<open>TypeError\<close>
    when one of its elements cannot be converted to text.

  The result depends on no other entry of the overrides: two documents that agree on the
  entry of this key give the same result, and an entry for another item in front of the
  items map or of the portions map changes nothing.
\<close>

theorem getEffectivePrices_override:
  assumes "baseline_lookup i pk = Some b"
  shows "effective_inline i pk ov
           = (case parseFloat (override_lookup ov i pk) of
                Inl err \<Rightarrow> Inl err
              | Inr (Finite v) \<Rightarrow> Inr (Some v)
              | Inr n \<Rightarrow> Inr (Some (baseInline b)))
   \<and> (override_lookup ov i pk = JNumber (Finite v)
        \<longrightarrow> effective_inline i pk ov = Inr (Some v))
   \<and> (override_lookup ov i pk \<in> {JUndefined, JNull, JBool t, JNumber NaN,
                                  JNumber PosInfinity, JNumber NegInfinity,
                                  JString [], JArray []}
        \<longrightarrow> effective_inline i pk ov = Inr (Some (baseInline b)))
   \<and> (override_lookup ov i pk = JObject kvs
        \<longrightarrow> effective_inline i pk ov
            = (if ''toString'' \<in> fst ` set kvs then Inl TypeError
               else Inr (Some (baseInline b))))
   \<and> (override_lookup ov i pk = JString (ds @ tx) \<and> ds \<noteq> [] \<and> list_all is_digit ds
        \<and> ends_literal tx \<and> digits_value ds < 2 ^ 53
        \<longrightarrow> effective_inline i pk ov = Inr (Some (real (digits_value ds))))
   \<and> (override_lookup ov i pk = JArray (w # ws) \<and> override_lookup ov' i pk = w
        \<longrightarrow> effective_inline i pk ov
            = (if list_ex ToString_raises (w # ws) then Inl TypeError
               else effective_inline i pk ov'))
   \<and> (override_lookup ov' i pk = override_lookup ov i pk
        \<longrightarrow> getEffectivePrices i pk ov' = getEffectivePrices i pk ov)
   \<and> (x \<noteq> i
        \<longrightarrow> getEffectivePrices i pk \<lparr>items = JObject ((x, y) # ovs), portions = ps\<rparr>
            = getEffectivePrices i pk \<lparr>items = JObject ovs, portions = ps\<rparr>)
   \<and> (x \<noteq> i
        \<longrightarrow> getEffectivePrices i pk \<lparr>items = its, portions = JObject ((x, y) # ovs)\<rparr>
            = getEffectivePrices i pk \<lparr>items = its, portions = JObject ovs\<rparr>)"
proof -
  note law = effective_inline_parseFloat [OF assms]
  have 1: "effective_inline i pk ov
           = (case parseFloat (override_lookup ov i pk) of
                Inl err \<Rightarrow> Inl err
              | Inr (Finite v) \<Rightarrow> Inr (Some v)
              | Inr n \<Rightarrow> Inr (Some (baseInline b)))"
    by (rule law)
  have 2: "effective_inline i pk ov = Inr (Some v)"
    if "override_lookup ov i pk = JNumber (Finite v)"
    using that by (simp add: law)
  have 3: "effective_inline i pk ov = Inr (Some (baseInline b))"
    if "override_lookup ov i pk \<in> {JUndefined, JNull, JBool t, JNumber NaN,
                                    JNumber PosInfinity, JNumber NegInfinity,
                                    JString [], JArray []}"
    using that by (auto simp: law parseFloat_string_def split_sign_def)
  have 4: "effective_inline i pk ov
            = (if ''toString'' \<in> fst ` set kvs then Inl TypeError
               else Inr (Some (baseInline b)))"
    if "override_lookup ov i pk = JObject kvs"
    using that by (simp add: law)
  have 5: "effective_inline i pk ov = Inr (Some (real (digits_value ds)))"
    if "override_lookup ov i pk = JString (ds @ tx) \<and> ds \<noteq> [] \<and> list_all is_digit ds
        \<and> ends_literal tx \<and> digits_value ds < 2 ^ 53"
  proof -
    have "parseFloat_string (ds @ tx) = Number_value (real (digits_value ds))"
      using that by (intro parseFloat_string_digits) simp_all
    also have "\<dots> = Finite (real (digits_value ds))"
      using that by (intro Number_value_of_nat) simp
    finally show ?thesis
      using that by (simp add: law)
  qed
  have 6: "effective_inline i pk ov
            = (if list_ex ToString_raises (w # ws) then Inl TypeError
               else effective_inline i pk ov')"
    if "override_lookup ov i pk = JArray (w # ws) \<and> override_lookup ov' i pk = w"
    using that by (simp add: effective_inline_parseFloat [OF assms])
  have 7: "getEffectivePrices i pk ov' = getEffectivePrices i pk ov"
    if "override_lookup ov' i pk = override_lookup ov i pk"
    using that assms by (simp add: getEffectivePrices_lookup)
  have 8: "getEffectivePrices i pk \<lparr>items = JObject ((x, y) # ovs), portions = ps\<rparr>
            = getEffectivePrices i pk \<lparr>items = JObject ovs, portions = ps\<rparr>"
    if "x \<noteq> i"
    using that by (simp add: getEffectivePrices_lookup override_lookup_def split: option.splits)
  have 9: "getEffectivePrices i pk \<lparr>items = its, portions = JObject ((x, y) # ovs)\<rparr>
            = getEffectivePrices i pk \<lparr>items = its, portions = JObject ovs\<rparr>"
    if "x \<noteq> i"
    using that by (simp add: getEffectivePrices_lookup override_lookup_def split: option.splits)
  show ?thesis
    by (intro conjI impI)
      (fact 1, erule 2, erule 3, erule 4, erule 5, erule 6, erule 7, erule 8, erule 9)
qed

theorem getEffectivePrices_override_witness:
  "baseline_lookup ''beef_ribs'' None
     = Some \<lparr>baseInline = 15, baseOnline = 16, baseMarkup = 1\<rparr>
   \<and> effective_inline ''beef_ribs'' None
        \<lparr>items = JObject [(''beef_ribs'', JNumber (Finite 14))], portions = JObject []\<rparr>
       = Inr (Some 14)
   \<and> effective_inline ''beef_ribs'' None
        \<lparr>items = JObject [(''beef_ribs'', JNull)], portions = JObject []\<rparr>
       = Inr (Some 15)
   \<and> effective_inline ''beef_ribs'' None
        \<lparr>items = JObject [(''beef_ribs'', JString ''12abc'')], portions = JObject []\<rparr>
       = Inr (Some 12)
   \<and> effective_inline ''beef_ribs'' None
        \<lparr>items = JObject [(''beef_ribs'', JString [CHR 0xC2, CHR 0xA0, CHR ''1'', CHR ''2''])],
         portions = JObject []\<rparr>
       = Inr (Some 12)
   \<and> effective_inline ''beef_ribs'' None
        \<lparr>items = JObject [(''beef_ribs'', JString ''1e309'')], portions = JObject []\<rparr>
       = Inr (Some 15)
   \<and> effective_inline ''beef_ribs'' None
        \<lparr>items = JObject [(''beef_ribs'', JObject [(''toString'', JNumber (Finite 1))])],
         portions = JObject []\<rparr>
       = Inl TypeError
   \<and> getEffectivePrices ''beef_ribs'' None
        \<lparr>items = JObject [(''salmon'', JNumber (Finite 9))], portions = JObject []\<rparr>
       = getEffectivePrices ''beef_ribs'' None \<lparr>items = JObject [], portions = JObject []\<rparr>"
proof -
  note th = getEffectivePrices_override [OF baseline_beef_ribs]
  have lk: "override_lookup \<lparr>items = JObject [(''beef_ribs'', e)], portions = JObject []\<rparr>
              ''beef_ribs'' None = e" for e
    by (simp add: override_lookup_def or_null_def)
  have a: "effective_inline ''beef_ribs'' None
        \<lparr>items = JObject [(''beef_ribs'', JNumber (Finite 14))], portions = JObject []\<rparr>
       = Inr (Some 14)"
    by (rule th [THEN conjunct2, THEN conjunct1, rule_format]) (rule lk)
  have b: "effective_inline ''beef_ribs'' None
        \<lparr>items = JObject [(''beef_ribs'', JNull)], portions = JObject []\<rparr>
       = Inr (Some 15)"
    by (rule th [where t = True, THEN conjunct2, THEN conjunct2,
          THEN conjunct1, rule_format, simplified baseline_entry.simps])
      (simp add: lk)
  have c: "effective_inline ''beef_ribs'' None
        \<lparr>items = JObject [(''beef_ribs'', JString ''12abc'')], portions = JObject []\<rparr>
       = Inr (Some 12)"
    using th [where ds = "''12''" and tx = "''abc''", THEN conjunct2, THEN conjunct2,
          THEN conjunct2, THEN conjunct2, THEN conjunct1, rule_format,
          of "\<lparr>items = JObject [(''beef_ribs'', JString ''12abc'')], portions = JObject []\<rparr>"]
    by (simp add: lk is_digit_def ends_literal_def digits_value_def digit_value_def)
  have d: "effective_inline ''beef_ribs'' None
        \<lparr>items = JObject [(''beef_ribs'', JString [CHR 0xC2, CHR 0xA0, CHR ''1'', CHR ''2''])],
         portions = JObject []\<rparr>
       = Inr (Some 12)"
    by (simp add: th [THEN conjunct1] lk parseFloat_defs)
  have e: "effective_inline ''beef_ribs'' None
        \<lparr>items = JObject [(''beef_ribs'', JString ''1e309'')], portions = JObject []\<rparr>
       = Inr (Some 15)"
    by (simp add: th [THEN conjunct1] lk parseFloat_defs Number_value_overflow)
  have f: "effective_inline ''beef_ribs'' None
        \<lparr>items = JObject [(''beef_ribs'', JObject [(''toString'', JNumber (Finite 1))])],
         portions = JObject []\<rparr>
       = Inl TypeError"
    by (simp add: th [THEN conjunct1] lk)
  have g: "getEffectivePrices ''beef_ribs'' None
        \<lparr>items = JObject [(''salmon'', JNumber (Finite 9))], portions = JObject []\<rparr>
       = getEffectivePrices ''beef_ribs'' None \<lparr>items = JObject [], portions = JObject []\<rparr>"
    by (rule th [THEN conjunct2, THEN conjunct2, THEN conjunct2, THEN conjunct2,
          THEN conjunct2, THEN conjunct2, THEN conjunct2, THEN conjunct1, rule_format]) simp
  show ?thesis
    by (intro conjI) (fact baseline_beef_ribs, fact a, fact b, fact c, fact d, fact e, fact f,
        fact g)
qed

section \<open>Cart lines\<close>

text \<open>
  C7. For every item and portion key, adding the item to the cart twice with the same
  portion key (or twice with no portion) yields a single cart line with quantity 2, not
  two lines; adding the same item with two different portion keys yields two distinct
  cart lines.

  An add is a call of \<open>addToCart\<close> that gets to the cart: ordering is open (when it is
  closed the function returns at once and the cart is as it was), and the pricing lookup
  returns (the override entry of the item converts to text). The statement holds on every
  cart. With no line of the item and key in the cart, the two adds append one line, with
  quantity 2; with such a line in the cart, they add 2 to the quantity of the first one
  and append nothing. The adds with two different keys write two lines at two different
  places of the cart, one carrying the first key and one the second; with no line of
  either key in the cart, they append two lines with quantity 1 each.
\<close>

theorem addToCart_line_identity:
  assumes "\<not> orderingClosed"
  shows "(\<not> ToString_raises (override_lookup ov (itemId item) (map_option key po))
          \<longrightarrow> (\<exists>c1 c2. addToCart orderingClosed checked ov item po cart = Inr c1
                 \<and> addToCart orderingClosed checked ov item po c1 = Inr c2
                 \<and> (case findIndex (same_line (itemId item) (map_option key po)) cart of
                      None \<Rightarrow>
                        (\<exists>l. c2 = cart @ [l] \<and> itemId l = itemId item
                           \<and> plateOptionKey l = or_null (map_option key po)
                           \<and> quantity l = 2)
                    | Some idx \<Rightarrow>
                        (\<exists>l. c2 = cart[idx := l] \<and> itemId l = itemId (cart ! idx)
                           \<and> plateOptionKey l = plateOptionKey (cart ! idx)
                           \<and> quantity l = quantity (cart ! idx) + 2))))
   \<and> (key po1 \<noteq> key po2
        \<and> \<not> ToString_raises (override_lookup ov (itemId item) (Some (key po1)))
        \<and> \<not> ToString_raises (override_lookup ov (itemId item) (Some (key po2)))
          \<longrightarrow> (\<exists>c1 c2 n1 n2.
                   addToCart orderingClosed checked ov item (Some po1) cart = Inr c1
                 \<and> addToCart orderingClosed checked ov item (Some po2) c1 = Inr c2
                 \<and> n1 < length c2 \<and> n2 < length c2 \<and> n1 \<noteq> n2
                 \<and> same_line (itemId item) (Some (key po1)) (c2 ! n1)
                 \<and> same_line (itemId item) (Some (key po2)) (c2 ! n2)))
   \<and> (key po1 \<noteq> key po2
        \<and> \<not> ToString_raises (override_lookup ov (itemId item) (Some (key po1)))
        \<and> \<not> ToString_raises (override_lookup ov (itemId item) (Some (key po2)))
        \<and> findIndex (same_line (itemId item) (Some (key po1))) cart = None
        \<and> findIndex (same_line (itemId item) (Some (key po2))) cart = None
          \<longrightarrow> (\<exists>l1 l2.
                   addToCart orderingClosed checked ov item (Some po1) cart = Inr (cart @ [l1])
                 \<and> addToCart orderingClosed checked ov item (Some po2) (cart @ [l1])
                     = Inr (cart @ [l1, l2])
                 \<and> itemId l1 = itemId item \<and> itemId l2 = itemId item
                 \<and> plateOptionKey l1 = or_null (Some (key po1))
                 \<and> plateOptionKey l2 = or_null (Some (key po2))
                 \<and> plateOptionKey l1 \<noteq> plateOptionKey l2
                 \<and> quantity l1 = 1 \<and> quantity l2 = 1))"
proof -
  have closed: "orderingClosed = False"
    using assms by simp
  show ?thesis
    unfolding closed
    by (intro conjI impI)
      (erule addToCart_twice, elim conjE, erule (2) addToCart_two_lines,
        elim conjE, erule (4) addToCart_two_keys)
qed

theorem addToCart_line_identity_witness:
  "map line_summary (add_wings three_wings (add_wings three_wings []))
     = [(''chicken_wings'', Some ''3_wings'', 2)]
   \<and> map line_summary (add_wings three_wings (add_wings two_wings []))
     = [(''chicken_wings'', Some ''2_wings'', 1), (''chicken_wings'', Some ''3_wings'', 1)]
   \<and> map line_summary
         (add_wings three_wings (add_wings three_wings (add_wings three_wings [])))
     = [(''chicken_wings'', Some ''3_wings'', 3)]"
proof -
  have op: "\<not> False" by simp
  note th = addToCart_line_identity [OF op, where item = chicken_wings and cart = "[]"
      and checked = "Some ''pickup''" and ov = empty_overrides]
  have r: "\<not> ToString_raises (override_lookup empty_overrides i k)" for i k
    by (simp add: override_lookup_def empty_overrides_def split: option.splits)
  have "\<exists>c1 c2. addToCart False (Some ''pickup'') empty_overrides chicken_wings
                  (Some three_wings) [] = Inr c1
          \<and> addToCart False (Some ''pickup'') empty_overrides chicken_wings
                  (Some three_wings) c1 = Inr c2
          \<and> (\<exists>l. c2 = [] @ [l] \<and> itemId l = itemId chicken_wings
                 \<and> plateOptionKey l = or_null (map_option key (Some three_wings))
                 \<and> quantity l = 2)"
    using th [where po = "Some three_wings", THEN conjunct1, rule_format, OF r] by simp
  then have a: "map line_summary (add_wings three_wings (add_wings three_wings []))
     = [(''chicken_wings'', Some ''3_wings'', 2)]"
    by (auto simp: add_wings_def line_summary_def chicken_wings_def three_wings_def or_null_def)
  have "\<exists>l1 l2. addToCart False (Some ''pickup'') empty_overrides chicken_wings
                  (Some two_wings) [] = Inr ([] @ [l1])
          \<and> addToCart False (Some ''pickup'') empty_overrides chicken_wings
                  (Some three_wings) ([] @ [l1]) = Inr ([] @ [l1, l2])
          \<and> itemId l1 = itemId chicken_wings \<and> itemId l2 = itemId chicken_wings
          \<and> plateOptionKey l1 = or_null (Some (key two_wings))
          \<and> plateOptionKey l2 = or_null (Some (key three_wings))
          \<and> plateOptionKey l1 \<noteq> plateOptionKey l2
          \<and> quantity l1 = 1 \<and> quantity l2 = 1"
    by (rule th [THEN conjunct2, THEN conjunct2, rule_format])
      (simp add: two_wings_def three_wings_def r)
  then have b: "map line_summary (add_wings three_wings (add_wings two_wings []))
     = [(''chicken_wings'', Some ''2_wings'', 1), (''chicken_wings'', Some ''3_wings'', 1)]"
    by (auto simp: add_wings_def line_summary_def chicken_wings_def two_wings_def
        three_wings_def or_null_def)
  have f: "findIndex (same_line (itemId chicken_wings) (map_option key (Some three_wings)))
             (add_wings three_wings []) = Some 0"
    unfolding add_three_wings_once
    by (simp add: same_line_def chicken_wings_def three_wings_def or_null_def)
  from addToCart_line_identity [OF op, where item = chicken_wings
        and cart = "add_wings three_wings []" and checked = "Some ''pickup''"
        and ov = empty_overrides and po = "Some three_wings",
        THEN conjunct1, rule_format, OF r]
  obtain c1 c2 l where c:
    "addToCart False (Some ''pickup'') empty_overrides chicken_wings
        (Some three_wings) (add_wings three_wings []) = Inr c1"
    "addToCart False (Some ''pickup'') empty_overrides chicken_wings
        (Some three_wings) c1 = Inr c2"
    "c2 = (add_wings three_wings [])[0 := l]"
    "itemId l = itemId (add_wings three_wings [] ! 0)"
    "plateOptionKey l = plateOptionKey (add_wings three_wings [] ! 0)"
    "quantity l = quantity (add_wings three_wings [] ! 0) + 2"
    unfolding f option.case by blast
  have "add_wings three_wings (add_wings three_wings (add_wings three_wings [])) = c2"
    using c(1,2) by (simp add: add_wings_def [of _ "add_wings three_wings []"]
        add_wings_def [of _ c1])
  then have c: "map line_summary
         (add_wings three_wings (add_wings three_wings (add_wings three_wings [])))
     = [(''chicken_wings'', Some ''3_wings'', 3)]"
    using c(3-6) by (simp add: add_three_wings_once line_summary_def)
  show ?thesis
    using a b c by simp
qed

text \<open>
  C8. The claim: a quantity change on one cart line touches only the line with that item
  id and portion key. \<open>updateQuantity\<close> looks the line up by item id alone, so with two
  lines of one item the first is changed whichever row was clicked: in the cart of 2
  wings and 3 wings, the plus button of the 3 wings row raises the quantity of the 2
  wings line, and its minus button removes the 2 wings line.
\<close>

theorem updateQuantity_changes_first_line_of_item:
  "map line_summary (add_wings three_wings (add_wings two_wings []))
     = [(''chicken_wings'', Some ''2_wings'', 1), (''chicken_wings'', Some ''3_wings'', 1)]
   \<and> map line_summary (clickIncrease 1 (add_wings three_wings (add_wings two_wings [])))
     = [(''chicken_wings'', Some ''2_wings'', 2), (''chicken_wings'', Some ''3_wings'', 1)]
   \<and> map line_summary (clickDecrease 1 (add_wings three_wings (add_wings two_wings [])))
     = [(''chicken_wings'', Some ''3_wings'', 1)]"
  unfolding add_two_then_three_wings
  by (simp add: clickIncrease_def clickDecrease_def updateQuantity_def line_summary_def)

section \<open>Override store\<close>

text \<open>
  C9, as stated, fails: the stored document \<open>{"items": 5}\<close> has an unexpected shape,
  and \<open>loadPriceOverrides\<close> returns its \<open>items\<close> value 5 instead of the empty map.
\<close>

theorem loadPriceOverrides_shape_counterexample:
  "\<not> well_formed_overrides (JObject [(''items'', JNumber (Finite 5))])
   \<and> loadPriceOverrides (Document (JObject [(''items'', JNumber (Finite 5))]))
       = \<lparr>items = JNumber (Finite 5), portions = JObject []\<rparr>
   \<and> loadPriceOverrides (Document (JObject [(''items'', JNumber (Finite 5))]))
       \<noteq> empty_overrides"
  by (simp add: well_formed_overrides_def loadPriceOverrides_def or_empty_object_def
      empty_overrides_def)

text \<open>
  C9, amended. \<open>loadPriceOverrides\<close> never throws: every error raised while reading is
  answered with the empty overrides \<open>{items: {}, portions: {}}\<close>. It returns the empty
  overrides when storage cannot be read, the key is missing, the text is empty or does
  not parse, or the parsed value is not an object. For a parsed object it returns the
  object's \<open>items\<close> and \<open>portions\<close> values, each replaced by \<open>{}\<close> when missing or falsy
  and otherwise returned as it is, whatever its type; for a well-formed document these
  are its two maps.
\<close>

theorem loadPriceOverrides_cases:
  "loadPriceOverrides GetItemThrows = empty_overrides
   \<and> loadPriceOverrides NoEntry = empty_overrides
   \<and> loadPriceOverrides EmptyText = empty_overrides
   \<and> loadPriceOverrides Unparsable = empty_overrides
   \<and> (loadPriceOverrides_try st = Inl err \<longrightarrow> loadPriceOverrides st = empty_overrides)
   \<and> (\<not> is_object d \<longrightarrow> loadPriceOverrides (Document d) = empty_overrides)
   \<and> (is_object d \<longrightarrow>
        loadPriceOverrides (Document d)
          = \<lparr>items = (if truthy (get_prop d ''items'') then get_prop d ''items''
                      else JObject []),
             portions = (if truthy (get_prop d ''portions'') then get_prop d ''portions''
                         else JObject [])\<rparr>)
   \<and> (well_formed_overrides d \<longrightarrow>
        loadPriceOverrides (Document d)
          = \<lparr>items = get_prop d ''items'', portions = get_prop d ''portions''\<rparr>)"
proof -
  have obj_truthy: "truthy v" if "is_object v" for v
    using that by (cases v) simp_all
  have price_obj: "is_object v" if "is_price_map v" for v
    using that by (cases v) simp_all
  have portion_obj: "is_object v" if "is_portion_map v" for v
    using that by (cases v) simp_all
  have caught: "loadPriceOverrides st = empty_overrides"
    if "loadPriceOverrides_try st = Inl err"
    using that by (simp add: loadPriceOverrides_def)
  have not_obj: "loadPriceOverrides (Document d) = empty_overrides" if "\<not> is_object d"
    using that
    by (cases d) (simp_all add: loadPriceOverrides_def or_empty_object_def empty_overrides_def)
  have obj: "loadPriceOverrides (Document d)
          = \<lparr>items = (if truthy (get_prop d ''items'') then get_prop d ''items''
                      else JObject []),
             portions = (if truthy (get_prop d ''portions'') then get_prop d ''portions''
                         else JObject [])\<rparr>" if "is_object d"
    using that by (cases d) (simp_all add: loadPriceOverrides_def or_empty_object_def)
  have wf: "loadPriceOverrides (Document d)
          = \<lparr>items = get_prop d ''items'', portions = get_prop d ''portions''\<rparr>"
    if "well_formed_overrides d"
  proof -
    have "is_object d" "truthy (get_prop d ''items'')" "truthy (get_prop d ''portions'')"
      using that obj_truthy price_obj portion_obj
      by (simp_all add: well_formed_overrides_def)
    then show ?thesis
      using obj by simp
  qed
  have base: "loadPriceOverrides GetItemThrows = empty_overrides"
    "loadPriceOverrides NoEntry = empty_overrides"
    "loadPriceOverrides EmptyText = empty_overrides"
    "loadPriceOverrides Unparsable = empty_overrides"
    by (simp_all add: loadPriceOverrides_def)
  show ?thesis
    by (intro conjI impI)
      (rule base(1), rule base(2), rule base(3), rule base(4),
        erule caught, erule not_obj, erule obj, erule wf)
qed

theorem loadPriceOverrides_cases_witness:
  "loadPriceOverrides_try (Document JNull) = Inl TypeError
   \<and> loadPriceOverrides (Document JNull) = empty_overrides
   \<and> loadPriceOverrides (Document (JString ''abc'')) = empty_overrides
   \<and> loadPriceOverrides
        (Document (JObject [(''items'', JObject [(''beef_ribs'', JNumber (Finite 14))]),
                            (''portions'', JObject [])]))
       = \<lparr>items = JObject [(''beef_ribs'', JNumber (Finite 14))], portions = JObject []\<rparr>"
proof -
  have t: "loadPriceOverrides_try (Document JNull) = Inl TypeError"
    by simp
  have a: "loadPriceOverrides (Document JNull) = empty_overrides"
    by (rule loadPriceOverrides_cases [THEN conjunct2, THEN conjunct2, THEN conjunct2,
          THEN conjunct2, THEN conjunct1, rule_format]) (rule t)
  have b: "loadPriceOverrides (Document (JString ''abc'')) = empty_overrides"
    by (rule loadPriceOverrides_cases [THEN conjunct2, THEN conjunct2, THEN conjunct2,
          THEN conjunct2, THEN conjunct2, THEN conjunct1, rule_format]) simp
  have c: "loadPriceOverrides
        (Document (JObject [(''items'', JObject [(''beef_ribs'', JNumber (Finite 14))]),
                            (''portions'', JObject [])]))
       = \<lparr>items = get_prop (JObject [(''items'', JObject [(''beef_ribs'', JNumber (Finite 14))]),
                            (''portions'', JObject [])]) ''items'',
          portions = get_prop (JObject [(''items'', JObject [(''beef_ribs'', JNumber (Finite 14))]),
                            (''portions'', JObject [])]) ''portions''\<rparr>"
    by (rule loadPriceOverrides_cases [THEN conjunct2, THEN conjunct2, THEN conjunct2,
          THEN conjunct2, THEN conjunct2, THEN conjunct2, THEN conjunct2, rule_format])
      (simp add: well_formed_overrides_def)
  show ?thesis
    using t a b c by simp
qed

section \<open>Delivery distance\<close>

text \<open>
  C10. The distance in miles between two coordinate pairs is the same in both
  directions, and the distance from a coordinate pair to itself is zero.
\<close>

theorem computeDistanceMiles_symmetric_zero:
  "computeDistanceMiles lat1 lon1 lat2 lon2 = computeDistanceMiles lat2 lon2 lat1 lon1
   \<and> computeDistanceMiles lat1 lon1 lat1 lon1 = 0"
proof
  have s: "(sin ((y - x) * pi / 180 / 2))\<^sup>2 = (sin ((x - y) * pi / 180 / 2))\<^sup>2"
    for x y :: real
  proof -
    have "(y - x) * pi / 180 / 2 = - ((x - y) * pi / 180 / 2)"
      by (simp only: minus_diff_eq [symmetric, of x y] mult_minus_left minus_divide_left)
    then show ?thesis
      by (simp only: sin_minus power2_minus)
  qed
  show "computeDistanceMiles lat1 lon1 lat2 lon2 = computeDistanceMiles lat2 lon2 lat1 lon1"
    unfolding computeDistanceMiles_def Let_def
    by (simp only: s [of lat1 lat2] s [of lon1 lon2] mult.commute [of "cos (lat2 * pi / 180)"])
  show "computeDistanceMiles lat1 lon1 lat1 lon1 = 0"
    by (simp add: computeDistanceMiles_def Let_def Math_atan2_def)
qed

end

